theory Spec2Isabelle
  imports Complex_Main "HOL-Library.Multiset"
begin

section \<open>Python values, errors and strings\<close>

text \<open>
  The module \<open>detprob.py\<close> is Python 2. Every exception the modelled code can raise is a
  value of \<open>py_error\<close>; a function that can raise returns \<open>py_error + 'a\<close> with
  \<open>Inl\<close> for the exception. Python floats are modelled as real numbers and Python
  integers as \<open>int\<close>.
\<close>

datatype py_error =
    AssertionError string
  | AttributeError string
  | NameError string
  | TypeError string
  | ValueError string
  | IOError string
  | IndexError

text \<open>A value that is either one number or a numpy vector of numbers.\<close>

datatype pyval = Scalar real | Vector "real list"

text \<open>\<open>str\<close> of a Python integer: decimal digits, a leading minus sign when negative.\<close>

definition digit_char :: "nat \<Rightarrow> char" where
  "digit_char d = ''0123456789'' ! d"

fun str_nat :: "nat \<Rightarrow> string" where
  "str_nat n = (if n < 10 then [digit_char n] else str_nat (n div 10) @ [digit_char (n mod 10)])"

declare str_nat.simps [simp del]

definition str_int :: "int \<Rightarrow> string" where
  "str_int i = (if i < 0 then CHR ''-'' # str_nat (nat (- i)) else str_nat (nat i))"

text \<open>\<open>sep.join(xs)\<close>.\<close>

fun py_join :: "string \<Rightarrow> string list \<Rightarrow> string" where
  "py_join sep [] = []"
| "py_join sep [x] = x"
| "py_join sep (x # y # ys) = x @ sep @ py_join sep (y # ys)"

section \<open>The environment of the module\<close>

text \<open>
  What the module takes from outside itself: Python's \<open>str\<close> on a float, the module
  globals \<open>directory\<close> and the imported \<open>pycbc\<close> (absent when the import failed, so
  that the name is unbound), the cosmology provider, the number of processors and the
  random number generator of numpy (a stream of uniform variates on the unit interval and
  the permutation it draws for a given length).
  The waveform provider stands for the three pycbc calls
  \<open>get_fd_waveform\<close>, \<open>psd.analytical.from_string\<close> and \<open>filter.sigma\<close>:
  approximant, mass1, mass2, delta_f, f_lower, distance and the psd name give the SNR.
\<close>

record env =
  str_float :: "real \<Rightarrow> string"
  module_directory :: string
  pycbc :: "(string \<Rightarrow> real \<Rightarrow> real \<Rightarrow> real \<Rightarrow> real \<Rightarrow> real \<Rightarrow> string \<Rightarrow> real) option"
  luminosity_distance :: "real \<Rightarrow> real"
  cpu_count :: nat
  random_stream :: "nat \<Rightarrow> real"
  permutation :: "nat \<Rightarrow> nat list"

section \<open>Cache file names\<close>

text \<open>
  \<open>'_'.join([x+'_'+str(eval(x)) for x in names])\<close>: the list of names paired with the
  rendered values of the variables they name.
\<close>

definition name_value_join :: "(string \<times> string) list \<Rightarrow> string" where
  "name_value_join nvs = py_join ''_'' (map (\<lambda>(x, v). x @ ''_'' @ v) nvs)"

text \<open>
  The keyword arguments of \<open>detectability.__init__\<close>. The seven numeric parameters
  whose defaults are floats are taken to be floats, printed by \<open>str\<close> of a float; the
  three sizes are integers.
\<close>

record detectability_args =
  approximant :: string
  psd :: string
  flow :: real
  deltaf :: real
  snrthreshold :: real
  screen :: bool
  parallel :: bool
  massmin :: real
  massmax :: real
  zmin :: real
  zmax :: real
  directory :: string
  binfile :: "string option"
  binfilepdet :: "string option"
  mc1d :: int
  mcn :: int
  mcbins :: int
  has_pycbc :: bool

text \<open>The default file name of \<open>pdet.__init__\<close> (line 68) and the path it stores (line 69).\<close>

definition pdet_default_binfile :: "int \<Rightarrow> int \<Rightarrow> string" where
  "pdet_default_binfile n b =
     ''pdet_'' @ name_value_join [(''mcn'', str_int n), (''mcbins'', str_int b)] @ ''.pkl''"

definition pdet_binfile_path :: "string \<Rightarrow> string option \<Rightarrow> int \<Rightarrow> int \<Rightarrow> string" where
  "pdet_binfile_path dir bf n b =
     dir @ ''/'' @ (case bf of None \<Rightarrow> pdet_default_binfile n b | Some f \<Rightarrow> f)"

text \<open>The default file name of \<open>detectability.__init__\<close> (line 161) and the path (line 162).\<close>

definition detectability_default_binfile :: "env \<Rightarrow> detectability_args \<Rightarrow> string" where
  "detectability_default_binfile e a =
     ''Pw_'' @ name_value_join
       [(''approximant'', approximant a),
        (''psd'', psd a),
        (''flow'', str_float e (flow a)),
        (''deltaf'', str_float e (deltaf a)),
        (''snrthreshold'', str_float e (snrthreshold a)),
        (''massmin'', str_float e (massmin a)),
        (''massmax'', str_float e (massmax a)),
        (''zmin'', str_float e (zmin a)),
        (''zmax'', str_float e (zmax a)),
        (''mc1d'', str_int (mc1d a))] @ ''.pkl''"

definition detectability_binfile_path :: "env \<Rightarrow> detectability_args \<Rightarrow> string" where
  "detectability_binfile_path e a =
     directory a @ ''/'' @
       (case binfile a of None \<Rightarrow> detectability_default_binfile e a | Some f \<Rightarrow> f)"

section \<open>numpy: linspace, fancy indexing, uniform variates\<close>

text \<open>
  Modelled from the spec: \<open>np.linspace(start, stop, num)\<close> is not under src/. The
  spec (4.4) says each axis is linearly sampled over its bounds with the configured
  resolution: \<open>num\<close> evenly spaced points from \<open>start\<close> to \<open>stop\<close>, both included; a
  negative \<open>num\<close> raises ValueError.
\<close>

definition linspace :: "real \<Rightarrow> real \<Rightarrow> int \<Rightarrow> py_error + real list" where
  "linspace start stop num =
     (if num < 0 then Inl (ValueError ''Number of samples must be non-negative'')
      else if num = 1 then Inr [start]
      else Inr (map (\<lambda>i. start + real i * ((stop - start) / real (nat num - 1))) [0..<nat num]))"

text \<open>\<open>xs[p]\<close> for an index array \<open>p\<close>: IndexError when an index is out of range.\<close>

definition take_indices :: "'a list \<Rightarrow> nat list \<Rightarrow> py_error + 'a list" where
  "take_indices xs p =
     (if list_all (\<lambda>k. k < length xs) p then Inr (map (\<lambda>k. xs ! k) p) else Inl IndexError)"

text \<open>
  Applying a function that may raise to every element in order: the first exception ends
  the batch (Python 2's \<open>map\<close>, and the ordered \<open>imap\<close> of the pool, whose results are
  read in input order).
\<close>

fun map_result :: "('a \<Rightarrow> py_error + 'b) \<Rightarrow> 'a list \<Rightarrow> py_error + 'b list" where
  "map_result f [] = Inr []"
| "map_result f (x # xs) =
     (case f x of
        Inl err \<Rightarrow> Inl err
      | Inr y \<Rightarrow> (case map_result f xs of Inl err \<Rightarrow> Inl err | Inr ys \<Rightarrow> Inr (y # ys)))"

text \<open>\<open>x if len(x)>1 else x[0]\<close> (lines 87, 211, 433).\<close>

definition demote :: "real list \<Rightarrow> py_error + pyval" where
  "demote xs =
     (if length xs > 1 then Inr (Vector xs)
      else (case xs of [] \<Rightarrow> Inl IndexError | x # _ \<Rightarrow> Inr (Scalar x)))"

text \<open>\<open>if not hasattr(x, "__len__"): x=[x]\<close> (lines 190-192, 425-427).\<close>

fun promote :: "pyval \<Rightarrow> real list" where
  "promote (Scalar x) = [x]"
| "promote (Vector xs) = xs"

section \<open>The state outside the objects\<close>

text \<open>
  A histogram as \<open>np.histogram\<close> returns it (counts and bin edges); the pickled
  distribution object is determined by it. A grid interpolant as
  \<open>scipy.interpolate.RegularGridInterpolator\<close> stores it.
\<close>

record hist =
  counts :: "nat list"
  edges :: "real list"

record 'v rgi =
  points :: "real list list"
  values' :: 'v
  bounds_error :: bool
  fill_value :: "real option"

datatype artifact = HistDist hist | GridInterpolant "real list list list rgi"

text \<open>
  The world: the files of the cache (a pickle file holds the object that was dumped), the
  directories, the position in the random stream, and two counters that record how often
  the Monte Carlo sampler ran and how many per-point evaluations of a grid were made.
\<close>

record world =
  files :: "string \<Rightarrow> artifact option"
  dirs :: "string set"
  rng :: nat
  mc_calls :: nat
  fn_calls :: nat

definition isfile :: "world \<Rightarrow> string \<Rightarrow> bool" where
  "isfile w p = (files w p \<noteq> None)"

definition path_exists :: "world \<Rightarrow> string \<Rightarrow> bool" where
  "path_exists w p = (p \<in> dirs w \<or> files w p \<noteq> None)"

definition makedirs :: "world \<Rightarrow> string \<Rightarrow> world" where
  "makedirs w p = w\<lparr>dirs := insert p (dirs w)\<rparr>"

definition pickle_dump :: "world \<Rightarrow> string \<Rightarrow> artifact \<Rightarrow> world" where
  "pickle_dump w p a = w\<lparr>files := (files w)(p \<mapsto> a)\<rparr>"

text \<open>
  Modelled from the spec: \<open>np.random.uniform(lo, hi, n)\<close> is not under src/. The spec
  (4.1) says the variates are drawn uniformly: here \<open>n\<close> variates, taken from the stream
  in order and scaled to the interval; a negative \<open>n\<close> raises ValueError.
\<close>

definition uniform :: "env \<Rightarrow> world \<Rightarrow> real \<Rightarrow> real \<Rightarrow> int \<Rightarrow> py_error + (real list \<times> world)" where
  "uniform e w lo hi n =
     (if n < 0 then Inl (ValueError ''negative dimensions are not allowed'')
      else Inr (map (\<lambda>i. lo + (hi - lo) * random_stream e (rng w + i)) [0..<nat n],
                w\<lparr>rng := rng w + nat n\<rparr>))"

section \<open>The library objects the module stores\<close>

text \<open>
  Modelled from the spec: \<open>np.histogram(samples, bins)\<close> is not under src/. The spec
  (4.1) says the samples are binned into an equal-width histogram with \<open>bins\<close> bins over
  the observed range. When all samples coincide numpy widens the range by one half on each
  side; with no sample the range is the unit interval; \<open>bins < 1\<close> raises ValueError. The
  last bin is closed on the right. \<open>bin_of\<close> is the bin a sample falls in.
\<close>

definition bin_of :: "real \<Rightarrow> real \<Rightarrow> nat \<Rightarrow> real \<Rightarrow> nat" where
  "bin_of lo hi b x = min (nat \<lfloor>(x - lo) / (hi - lo) * real b\<rfloor>) (b - 1)"

text \<open>
  Modelled from the spec: the histogram of \<open>np.histogram\<close>, the counts per bin and the
  \<open>bins + 1\<close> equally spaced edges over the range.
\<close>

definition histogram :: "real list \<Rightarrow> int \<Rightarrow> py_error + hist" where
  "histogram a bins =
     (if bins < 1 then Inl (ValueError ''bins must be positive'')
      else
        let b = nat bins;
            mn = (if a = [] then 0 else Min (set a));
            mx = (if a = [] then 1 else Max (set a));
            lo = (if mn = mx then mn - 1 / 2 else mn);
            hi = (if mn = mx then mx + 1 / 2 else mx)
        in Inr \<lparr>counts = map (\<lambda>k. length (filter (\<lambda>x. bin_of lo hi b x = k) a)) [0..<b],
                edges = map (\<lambda>i. lo + real i * ((hi - lo) / real b)) [0..<b + 1]\<rparr>)"

text \<open>
  Modelled from the spec: \<open>scipy.stats.rv_histogram(hist).sf\<close> is not under src/. The
  spec (4.1) says the empirical cumulative distribution is derived from the histogram and
  interpolated, and the survival function is its complement, saturating at 1 and 0 outside
  the range of the histogram. \<open>hcdf h k\<close> is the cumulative share of the samples in the
  first \<open>k\<close> bins, the value of the distribution function at edge \<open>k\<close>; between two edges
  the distribution function is linear.
\<close>

definition hcdf :: "hist \<Rightarrow> nat \<Rightarrow> real" where
  "hcdf h k = real (sum_list (take k (counts h))) / real (sum_list (counts h))"

text \<open>
  Modelled from the spec: the interpolated distribution function inside the range of the
  histogram, linear on the bin that holds the point.
\<close>

definition hist_cdf :: "hist \<Rightarrow> real \<Rightarrow> real" where
  "hist_cdf h x =
     (let i = length (filter (\<lambda>v. v \<le> x) (edges h)) - 1
      in hcdf h i +
         (x - edges h ! i) * ((hcdf h (i + 1) - hcdf h i) / (edges h ! (i + 1) - edges h ! i)))"

text \<open>
  Modelled from the spec: the survival function, the complement of the distribution
  function inside the range, 1 at and below the first edge and 0 at and above the last.
\<close>

definition rv_histogram_sf :: "hist \<Rightarrow> real \<Rightarrow> real" where
  "rv_histogram_sf h x =
     (if x \<le> hd (edges h) then 1
      else if last (edges h) \<le> x then 0
      else 1 - hist_cdf h x)"

text \<open>
  Modelled from the spec: \<open>scipy.interpolate.RegularGridInterpolator\<close> is not under
  src/. The spec (4.3) says it is a multilinear interpolant over the grid and the value
  array; with \<open>bounds_error\<close> unset and no fill value it never raises for a query outside
  the grid and extrapolates linearly from the boundary region. The constructor refuses an
  axis that is not strictly ascending. A query outside the grid raises ValueError when
  \<open>bounds_error\<close> is set, and gives the fill value when there is one.
\<close>

definition RegularGridInterpolator ::
  "real list list \<Rightarrow> 'v \<Rightarrow> bool \<Rightarrow> real option \<Rightarrow> py_error + 'v rgi" where
  "RegularGridInterpolator ps vs be fv =
     (if list_all (sorted_wrt (<)) ps
      then Inr \<lparr>points = ps, values' = vs, bounds_error = be, fill_value = fv\<rparr>
      else Inl (ValueError ''The points in a dimension must be strictly ascending''))"

text \<open>
  Modelled from the spec: the cell of an axis used for a coordinate, the one that holds
  it, the first cell for a coordinate below the axis and the last cell for one above it
  (the boundary region of the spec).
\<close>

definition cell_index :: "real list \<Rightarrow> real \<Rightarrow> nat" where
  "cell_index g x = min (length (filter (\<lambda>v. v < x) g) - 1) (length g - 2)"

text \<open>
  Modelled from the spec: linear interpolation along one axis, of the values \<open>f\<close> at the
  knots. Inside the cell it interpolates, outside the axis it continues the line of the
  boundary cell.
\<close>

definition lerp :: "real list \<Rightarrow> (nat \<Rightarrow> real) \<Rightarrow> real \<Rightarrow> real" where
  "lerp g f x =
     (let i = cell_index g x;
          t = (x - g ! i) / (g ! (i + 1) - g ! i)
      in (1 - t) * f i + t * f (i + 1))"

text \<open>Modelled from the spec: a coordinate outside the bounds of an axis.\<close>

definition outside :: "real list \<Rightarrow> real \<Rightarrow> bool" where
  "outside g x = (x < hd g \<or> last g < x)"

text \<open>
  Modelled from the spec: calling the interpolant of a 2-D grid on a list of points. The
  multilinear form is the linear interpolation along the first axis of the linear
  interpolations along the second. An axis has at least two knots and the value array has
  the shape of the grid; for a shorter axis the library gives no number, and nothing is
  proved here about such a grid.
\<close>

definition rgi_call2 ::
  "real list list rgi \<Rightarrow> (real \<times> real) list \<Rightarrow> py_error + real list" where
  "rgi_call2 itp xi =
     (case points itp of
        [g1, g2] \<Rightarrow>
          if bounds_error itp \<and> list_ex (\<lambda>(x, y). outside g1 x \<or> outside g2 y) xi
          then Inl (ValueError ''One of the requested xi is out of bounds'')
          else Inr (map (\<lambda>(x, y).
                 case fill_value itp of
                   Some fv \<Rightarrow>
                     if outside g1 x \<or> outside g2 y then fv
                     else lerp g1 (\<lambda>i. lerp g2 (\<lambda>j. values' itp ! i ! j) y) x
                 | None \<Rightarrow> lerp g1 (\<lambda>i. lerp g2 (\<lambda>j. values' itp ! i ! j) y) x) xi)
      | _ \<Rightarrow> Inl (ValueError ''The requested sample points xi have the wrong dimension''))"

text \<open>Modelled from the spec: calling the interpolant of a 3-D grid on a list of points.\<close>

definition rgi_call3 ::
  "real list list list rgi \<Rightarrow> (real \<times> real \<times> real) list \<Rightarrow> py_error + real list" where
  "rgi_call3 itp xi =
     (case points itp of
        [g1, g2, g3] \<Rightarrow>
          if bounds_error itp \<and>
             list_ex (\<lambda>(x, y, z). outside g1 x \<or> outside g2 y \<or> outside g3 z) xi
          then Inl (ValueError ''One of the requested xi is out of bounds'')
          else Inr (map (\<lambda>(x, y, z).
                 case fill_value itp of
                   Some fv \<Rightarrow>
                     if outside g1 x \<or> outside g2 y \<or> outside g3 z then fv
                     else lerp g1 (\<lambda>i. lerp g2 (\<lambda>j. lerp g3 (\<lambda>k. values' itp ! i ! j ! k) z) y) x
                 | None \<Rightarrow>
                     lerp g1 (\<lambda>i. lerp g2 (\<lambda>j. lerp g3 (\<lambda>k. values' itp ! i ! j ! k) z) y) x) xi)
      | _ \<Rightarrow> Inl (ValueError ''The requested sample points xi have the wrong dimension''))"

section \<open>class pdet\<close>

text \<open>
  The attributes of a \<open>pdet\<close> object. \<open>p_interpolate\<close> is \<open>self._interpolate\<close>: empty
  until the distribution is loaded, then the loaded distribution, whose survival function
  the object applies.
\<close>

record pdet =
  p_interpolate :: "hist option"
  p_mcn :: int
  p_mcbins :: int
  p_directory :: string
  p_binfile :: string

text \<open>\<open>pdet.__init__\<close> (lines 55-69).\<close>

definition pdet_init :: "string \<Rightarrow> string option \<Rightarrow> int \<Rightarrow> int \<Rightarrow> pdet" where
  "pdet_init dir bf n b =
     \<lparr>p_interpolate = None, p_mcn = n, p_mcbins = b, p_directory = dir,
      p_binfile = pdet_binfile_path dir bf n b\<rparr>"

text \<open>
  The antenna patterns and the projection parameter of one orientation (lines 81-85), in
  the arithmetic of the real numbers. The code computes them in float64, where each
  operation rounds: nothing about the rounded values is stated or proved here.
\<close>

definition Fplus :: "real \<Rightarrow> real \<Rightarrow> real \<Rightarrow> real" where
  "Fplus theta phi psi =
     0.5 * (1 + (cos theta)\<^sup>2) * cos (2 * phi) * cos (2 * psi)
       - cos theta * sin (2 * phi) * sin (2 * psi)"

definition Fcross :: "real \<Rightarrow> real \<Rightarrow> real \<Rightarrow> real" where
  "Fcross theta phi psi =
     0.5 * (1 + (cos theta)\<^sup>2) * cos (2 * phi) * sin (2 * psi)
       + cos theta * sin (2 * phi) * cos (2 * psi)"

definition littleomega :: "real \<Rightarrow> real \<Rightarrow> real \<Rightarrow> real \<Rightarrow> real" where
  "littleomega theta phi psi iota =
     sqrt ((Fplus theta phi psi)\<^sup>2 * (1 + (cos iota)\<^sup>2)\<^sup>2 / 4
           + (Fcross theta phi psi)\<^sup>2 * (cos iota)\<^sup>2)"

text \<open>
  \<open>pdet.montecarlo_samples\<close> (lines 72-87): four vectors of \<open>mcn\<close> uniform variates give
  the four angles; the arithmetic of numpy is elementwise.
\<close>

definition montecarlo_samples :: "env \<Rightarrow> world \<Rightarrow> int \<Rightarrow> py_error + (pyval \<times> world)" where
  "montecarlo_samples e w n =
     (case uniform e w (- 1) 1 n of Inl err \<Rightarrow> Inl err | Inr (u1, w1) \<Rightarrow>
     (case uniform e w1 (- 1) 1 n of Inl err \<Rightarrow> Inl err | Inr (u2, w2) \<Rightarrow>
     (case uniform e w2 (- 1) 1 n of Inl err \<Rightarrow> Inl err | Inr (u3, w3) \<Rightarrow>
     (case uniform e w3 (- 1) 1 n of Inl err \<Rightarrow> Inl err | Inr (u4, w4) \<Rightarrow>
        (let theta = map arccos u1;
             phi = map (\<lambda>u. pi * u) u2;
             psi = map (\<lambda>u. pi * u) u3;
             iota = map arccos u4;
             omega = map (\<lambda>(th, ph, ps, io). littleomega th ph ps io)
                       (zip theta (zip phi (zip psi iota)))
         in (case demote omega of
               Inl err \<Rightarrow> Inl err
             | Inr v \<Rightarrow> Inr (v, w4\<lparr>mc_calls := mc_calls w4 + 1\<rparr>)))))))"

text \<open>
  The cache-miss branch of \<open>pdet.interpolate\<close> (lines 95-103): make the directory,
  sample, bin, and dump the distribution.
\<close>

definition pdet_build :: "env \<Rightarrow> world \<Rightarrow> pdet \<Rightarrow> py_error + world" where
  "pdet_build e w p =
     (let w1 = (if path_exists w (p_directory p) then w else makedirs w (p_directory p))
      in (case montecarlo_samples e w1 (p_mcn p) of Inl err \<Rightarrow> Inl err | Inr (s, w2) \<Rightarrow>
         (case histogram (promote s) (p_mcbins p) of Inl err \<Rightarrow> Inl err | Inr h \<Rightarrow>
            Inr (pickle_dump w2 (p_binfile p) (HistDist h)))))"

text \<open>
  \<open>pdet.interpolate\<close> (lines 89-108). Loading a file that holds another kind of object
  gives an object without \<open>sf\<close>.
\<close>

definition pdet_interpolate :: "env \<Rightarrow> world \<Rightarrow> pdet \<Rightarrow> py_error + (hist \<times> world \<times> pdet)" where
  "pdet_interpolate e w p =
     (case p_interpolate p of
        Some h \<Rightarrow> Inr (h, w, p)
      | None \<Rightarrow>
          (case (if \<not> isfile w (p_binfile p) then pdet_build e w p else Inr w) of
             Inl err \<Rightarrow> Inl err
           | Inr w' \<Rightarrow>
               (case files w' (p_binfile p) of
                  None \<Rightarrow> Inl (IOError (p_binfile p))
                | Some (GridInterpolant g) \<Rightarrow> Inl (AttributeError ''sf'')
                | Some (HistDist h) \<Rightarrow> Inr (h, w', p\<lparr>p_interpolate := Some h\<rparr>))))"

text \<open>\<open>pdet.eval\<close> and \<open>pdet.__call__\<close> (lines 110-117), on a number or a vector.\<close>

fun apply_sf :: "hist \<Rightarrow> pyval \<Rightarrow> pyval" where
  "apply_sf h (Scalar x) = Scalar (rv_histogram_sf h x)"
| "apply_sf h (Vector xs) = Vector (map (rv_histogram_sf h) xs)"

definition pdet_eval :: "env \<Rightarrow> world \<Rightarrow> pdet \<Rightarrow> pyval \<Rightarrow> py_error + (pyval \<times> world \<times> pdet)" where
  "pdet_eval e w p x =
     (case pdet_interpolate e w p of
        Inl err \<Rightarrow> Inl err
      | Inr (h, w', p') \<Rightarrow> Inr (apply_sf h x, w', p'))"

definition pdet_call :: "env \<Rightarrow> world \<Rightarrow> pdet \<Rightarrow> pyval \<Rightarrow> py_error + (pyval \<times> world \<times> pdet)" where
  "pdet_call e w p x = pdet_eval e w p x"

section \<open>class detectability\<close>

text \<open>
  The attributes of a \<open>detectability\<close> object: the constructor copies its arguments
  into attributes of the same names (\<open>args\<close>), except that \<open>self.binfile\<close> is the full
  path. \<open>self.map\<close> is assigned only on one branch of the constructor, so the attribute
  may be missing; the three lazy slots start empty.
\<close>

datatype pool = ProcessingPool nat

record detectability =
  args :: detectability_args
  self_binfile :: string
  self_map :: "pool option"
  self_interpolate :: "artifact option"
  self_snrinterpolant :: "real list list rgi option"
  self_pdetproj :: "pdet option"

text \<open>
  \<open>detectability.__init__\<close> (lines 127-180). The assertion on \<open>mc1d\<close> holds by the
  type of the argument.
\<close>

definition detectability_init :: "env \<Rightarrow> world \<Rightarrow> detectability_args \<Rightarrow> detectability" where
  "detectability_init e w a =
     (let bf = detectability_binfile_path e a
      in \<lparr>args = a,
          self_binfile = bf,
          self_map = (if parallel a \<and> \<not> isfile w bf
                      then Some (ProcessingPool (cpu_count e)) else None),
          self_interpolate = None,
          self_snrinterpolant = None,
          self_pdetproj = None\<rparr>)"

text \<open>The defaults of the constructor's signature (lines 127-144).\<close>

definition default_args :: "env \<Rightarrow> detectability_args" where
  "default_args e =
     \<lparr>approximant = ''IMRPhenomD'', psd = ''aLIGOZeroDetHighPower'', flow = 10,
      deltaf = 1 / 40, snrthreshold = 8, screen = False, parallel = True,
      massmin = 1, massmax = 100, zmin = 1 / 10000, zmax = 22 / 10,
      directory = module_directory e, binfile = None, binfilepdet = None,
      mc1d = 200, mcn = 100000000, mcbins = 100000, has_pycbc = (pycbc e \<noteq> None)\<rparr>"

text \<open>
  \<open>detectability.pdetproj\<close> (lines 182-185). Inside the method the name \<open>directory\<close>
  is the module global.
\<close>

definition pdetproj :: "env \<Rightarrow> detectability \<Rightarrow> pdet \<times> detectability" where
  "pdetproj e d =
     (case self_pdetproj d of
        Some p \<Rightarrow> (p, d)
      | None \<Rightarrow>
          (let p = pdet_init (module_directory e) (binfilepdet (args d))
                     (mcn (args d)) (mcbins (args d))
           in (p, d\<lparr>self_pdetproj := Some p\<rparr>)))"

text \<open>\<open>detectability.snr\<close> (lines 187-211): the loop over the zipped inputs.\<close>

fun snr_loop :: "env \<Rightarrow> detectability \<Rightarrow> (real \<times> real \<times> real) list \<Rightarrow> py_error + real list" where
  "snr_loop e d [] = Inr []"
| "snr_loop e d ((m1, m2, z) # rest) =
     (let lum_dist = luminosity_distance e z
      in if \<not> has_pycbc (args d) then Inl (AssertionError ''pycbc is needed'')
         else (case pycbc e of
                 None \<Rightarrow> Inl (NameError ''pycbc'')
               | Some sigma \<Rightarrow>
                   (let snr_one = sigma (approximant (args d)) (m1 * (1 + z)) (m2 * (1 + z))
                                    (deltaf (args d)) (flow (args d)) lum_dist (psd (args d))
                    in case snr_loop e d rest of
                         Inl err \<Rightarrow> Inl err
                       | Inr vs \<Rightarrow> Inr (snr_one # vs))))"

definition snr :: "env \<Rightarrow> detectability \<Rightarrow> pyval \<Rightarrow> pyval \<Rightarrow> pyval \<Rightarrow> py_error + pyval" where
  "snr e d m1_vals m2_vals z_vals =
     (case snr_loop e d (zip (promote m1_vals) (zip (promote m2_vals) (promote z_vals))) of
        Inl err \<Rightarrow> Inl err
      | Inr vs \<Rightarrow> demote vs)"

text \<open>
  \<open>detectability._snr\<close> (lines 213-229), the per-point function of the SNR grid: it
  uses \<open>pycbc\<close> at distance 1 and has no assertion of its own.
\<close>

definition private_snr :: "env \<Rightarrow> detectability \<Rightarrow> real \<times> real \<Rightarrow> py_error + real" where
  "private_snr e d redshiftedmasses =
     (case redshiftedmasses of (m1z, m2z) \<Rightarrow>
        (case pycbc e of
           None \<Rightarrow> Inl (NameError ''pycbc'')
         | Some sigma \<Rightarrow>
             Inr (sigma (approximant (args d)) m1z m2z (deltaf (args d)) (flow (args d)) 1
                    (psd (args d)))))"

subsection \<open>Building a dense value array\<close>

text \<open>The two lists the nested loops fill in step (lines 274-279 and 361-368).\<close>

definition meshcoord2 :: "'a list \<Rightarrow> 'b list \<Rightarrow> (nat \<times> nat) list" where
  "meshcoord2 g1 g2 =
     concat (map (\<lambda>(i, a). map (\<lambda>(j, b). (i, j)) (enumerate 0 g2)) (enumerate 0 g1))"

definition meshgrid2 :: "'a list \<Rightarrow> 'b list \<Rightarrow> ('a \<times> 'b) list" where
  "meshgrid2 g1 g2 =
     concat (map (\<lambda>(i, a). map (\<lambda>(j, b). (a, b)) (enumerate 0 g2)) (enumerate 0 g1))"

definition meshcoord3 :: "'a list \<Rightarrow> 'b list \<Rightarrow> 'c list \<Rightarrow> (nat \<times> nat \<times> nat) list" where
  "meshcoord3 g1 g2 g3 =
     concat (map (\<lambda>(i, a).
       concat (map (\<lambda>(j, b). map (\<lambda>(k, c). (i, j, k)) (enumerate 0 g3)) (enumerate 0 g2)))
       (enumerate 0 g1))"

definition meshgrid3 :: "'a list \<Rightarrow> 'b list \<Rightarrow> 'c list \<Rightarrow> ('a \<times> 'b \<times> 'c) list" where
  "meshgrid3 g1 g2 g3 =
     concat (map (\<lambda>(i, a).
       concat (map (\<lambda>(j, b). map (\<lambda>(k, c). (a, b, c)) (enumerate 0 g3)) (enumerate 0 g2)))
       (enumerate 0 g1))"

text \<open>
  Writing each value at its index tag (lines 316-319 and 406-409); an index outside the
  array raises IndexError.
\<close>

fun scatter2 :: "real list list \<Rightarrow> ((nat \<times> nat) \<times> real) list \<Rightarrow> py_error + real list list" where
  "scatter2 arr [] = Inr arr"
| "scatter2 arr (((i, j), val) # rest) =
     (if i < length arr \<and> j < length (arr ! i)
      then scatter2 (arr[i := (arr ! i)[j := val]]) rest
      else Inl IndexError)"

fun scatter3 ::
  "real list list list \<Rightarrow> ((nat \<times> nat \<times> nat) \<times> real) list \<Rightarrow> py_error + real list list list" where
  "scatter3 arr [] = Inr arr"
| "scatter3 arr (((i, j, k), val) # rest) =
     (if i < length arr \<and> j < length (arr ! i) \<and> k < length (arr ! i ! j)
      then scatter3 (arr[i := (arr ! i)[j := (arr ! i ! j)[k := val]]]) rest
      else Inl IndexError)"

text \<open>
  The dispatch of a batch (lines 284-312 and 372-402). In parallel mode both lists are
  permuted by the same random permutation, and the batch goes to \<open>self.map\<close>, the ordered
  \<open>imap\<close> of the pool: a missing attribute raises AttributeError, and the results come
  back in the order of the permuted inputs. The polling loop only waits and prints. In
  sequential mode the batch is mapped in place. The result is the list of index tags and
  the list of values, in step.
\<close>

definition dispatch ::
  "env \<Rightarrow> detectability \<Rightarrow> ('x \<Rightarrow> py_error + real) \<Rightarrow> 'c list \<Rightarrow> 'x list
     \<Rightarrow> py_error + ('c list \<times> real list)" where
  "dispatch e d fn meshcoord meshgrid =
     (if parallel (args d) then
        (let p = permutation e (length meshcoord)
         in (case take_indices meshcoord p of Inl err \<Rightarrow> Inl err | Inr meshcoord' \<Rightarrow>
            (case take_indices meshgrid p of Inl err \<Rightarrow> Inl err | Inr meshgrid' \<Rightarrow>
            (case self_map d of
               None \<Rightarrow> Inl (AttributeError ''map'')
             | Some imap \<Rightarrow>
                 (case map_result fn meshgrid' of
                    Inl err \<Rightarrow> Inl err
                  | Inr meshvalues \<Rightarrow> Inr (meshcoord', meshvalues))))))
      else
        (case map_result fn meshgrid of
           Inl err \<Rightarrow> Inl err
         | Inr meshvalues \<Rightarrow> Inr (meshcoord, meshvalues)))"

definition grid_values2 ::
  "env \<Rightarrow> detectability \<Rightarrow> (real \<times> real \<Rightarrow> py_error + real) \<Rightarrow> real list \<Rightarrow> real list
     \<Rightarrow> py_error + real list list" where
  "grid_values2 e d fn g1 g2 =
     (case dispatch e d fn (meshcoord2 g1 g2) (meshgrid2 g1 g2) of
        Inl err \<Rightarrow> Inl err
      | Inr (meshcoord, meshvalues) \<Rightarrow>
          scatter2 (replicate (length g1) (replicate (length g2) 0)) (zip meshcoord meshvalues))"

definition grid_values3 ::
  "env \<Rightarrow> detectability \<Rightarrow> (real \<times> real \<times> real \<Rightarrow> py_error + real)
     \<Rightarrow> real list \<Rightarrow> real list \<Rightarrow> real list \<Rightarrow> py_error + real list list list" where
  "grid_values3 e d fn g1 g2 g3 =
     (case dispatch e d fn (meshcoord3 g1 g2 g3) (meshgrid3 g1 g2 g3) of
        Inl err \<Rightarrow> Inl err
      | Inr (meshcoord, meshvalues) \<Rightarrow>
          scatter3 (replicate (length g1) (replicate (length g2) (replicate (length g3) 0)))
            (zip meshcoord meshvalues))"

subsection \<open>The lazy interpolants\<close>

text \<open>
  \<open>detectability.snrinterpolant\<close> (lines 249-330). Each per-point evaluation is counted
  in \<open>fn_calls\<close>.
\<close>

definition snrinterpolant ::
  "env \<Rightarrow> world \<Rightarrow> detectability \<Rightarrow> py_error + (real list list rgi \<times> world \<times> detectability)" where
  "snrinterpolant e w d =
     (case self_snrinterpolant d of
        Some s \<Rightarrow> Inr (s, w, d)
      | None \<Rightarrow>
          if \<not> has_pycbc (args d) then Inl (AssertionError ''pycbc is needed'')
          else
            (case linspace (massmin (args d) * (1 + zmin (args d)))
                    (massmax (args d) * (1 + zmax (args d))) (mc1d (args d)) of
               Inl err \<Rightarrow> Inl err
             | Inr m1z_grid \<Rightarrow>
            (case linspace (massmin (args d) * (1 + zmin (args d)))
                    (massmax (args d) * (1 + zmax (args d))) (mc1d (args d)) of
               Inl err \<Rightarrow> Inl err
             | Inr m2z_grid \<Rightarrow>
            (case grid_values2 e d (private_snr e d) m1z_grid m2z_grid of
               Inl err \<Rightarrow> Inl err
             | Inr valuesforinterpolator \<Rightarrow>
            (case RegularGridInterpolator [m1z_grid, m2z_grid] valuesforinterpolator False None of
               Inl err \<Rightarrow> Inl err
             | Inr s \<Rightarrow>
                 Inr (s, w\<lparr>fn_calls := fn_calls w + length m1z_grid * length m2z_grid\<rparr>,
                      d\<lparr>self_snrinterpolant := Some s\<rparr>))))))"

text \<open>
  \<open>detectability._compute\<close> (lines 238-247), the per-point function of the detection
  grid. The interpolant is called on one point and gives a vector of one value, which the
  arithmetic of numpy carries to the survival function. numpy divides by zero without
  raising and the quotient is infinite or not a number: at a luminosity distance or an
  interpolated SNR of zero the code goes on with such a value (the survival function of
  an infinite factor is 0), while the quotient written here is the one of the real
  numbers, which is only right for divisors that are not zero. Nothing proved in this
  theory rests on a quotient by zero.
\<close>

definition private_compute ::
  "env \<Rightarrow> world \<Rightarrow> detectability \<Rightarrow> real \<times> real \<times> real
     \<Rightarrow> py_error + (pyval \<times> world \<times> detectability)" where
  "private_compute e w d data =
     (case data of (m1, m2, z) \<Rightarrow>
        (let ld = luminosity_distance e z
         in (case snrinterpolant e w d of
               Inl err \<Rightarrow> Inl err
             | Inr (snrint, w1, d1) \<Rightarrow>
            (case rgi_call2 snrint [(m1 * (1 + z), m2 * (1 + z))] of
               Inl err \<Rightarrow> Inl err
             | Inr v \<Rightarrow>
                 (let snr = map (\<lambda>x. x / ld) v;
                      (p, d2) = pdetproj e d1
                  in (case pdet_eval e w1 p (Vector (map (\<lambda>x. snrthreshold (args d) / x) snr)) of
                        Inl err \<Rightarrow> Inl err
                      | Inr (Pw, w2, p') \<Rightarrow> Inr (Pw, w2, d2\<lparr>self_pdetproj := Some p'\<rparr>)))))))"

text \<open>
  Storing a value into one cell of the array (line 409): a number, or a vector of one
  number.
\<close>

fun as_cell :: "pyval \<Rightarrow> py_error + real" where
  "as_cell (Scalar x) = Inr x"
| "as_cell (Vector [x]) = Inr x"
| "as_cell (Vector xs) = Inl (ValueError ''setting an array element with a sequence'')"

text \<open>
  The cache-miss branch of \<open>detectability.interpolate\<close> (lines 341-413). The two
  interpolants it needs are made available first, so every per-point call of
  \<open>_compute\<close> finds them in the object and leaves the object and the world as they are;
  in parallel mode the calls run on copies of the object.
\<close>

definition detectability_build ::
  "env \<Rightarrow> world \<Rightarrow> detectability \<Rightarrow> py_error + (world \<times> detectability)" where
  "detectability_build e w d =
     (let w0 = (if path_exists w (directory (args d)) then w else makedirs w (directory (args d)))
      in (case snrinterpolant e w0 d of
            Inl err \<Rightarrow> Inl err
          | Inr (dummy, w1, d1) \<Rightarrow>
         (let (p, d2) = pdetproj e d1
          in (case pdet_call e w1 p (Scalar 0.5) of
                Inl err \<Rightarrow> Inl err
              | Inr (dummy', w2, p') \<Rightarrow>
         (let d3 = d2\<lparr>self_pdetproj := Some p'\<rparr>
          in (case linspace (massmin (args d)) (massmax (args d)) (mc1d (args d)) of
                Inl err \<Rightarrow> Inl err
              | Inr m1_grid \<Rightarrow>
             (case linspace (massmin (args d)) (massmax (args d)) (mc1d (args d)) of
                Inl err \<Rightarrow> Inl err
              | Inr m2_grid \<Rightarrow>
             (case linspace (zmin (args d)) (zmax (args d)) (mc1d (args d)) of
                Inl err \<Rightarrow> Inl err
              | Inr z_grid \<Rightarrow>
             (case grid_values3 e d3
                     (\<lambda>data. case private_compute e w2 d3 data of
                                Inl err \<Rightarrow> Inl err
                              | Inr (Pw, w', d') \<Rightarrow> as_cell Pw)
                     m1_grid m2_grid z_grid of
                Inl err \<Rightarrow> Inl err
              | Inr valuesforinterpolator \<Rightarrow>
             (case RegularGridInterpolator [m1_grid, m2_grid, z_grid] valuesforinterpolator
                     False None of
                Inl err \<Rightarrow> Inl err
              | Inr interpolant \<Rightarrow>
                  Inr (pickle_dump
                         (w2\<lparr>fn_calls := fn_calls w2
                                + length m1_grid * length m2_grid * length z_grid\<rparr>)
                         (self_binfile d) (GridInterpolant interpolant),
                       d3)))))))))))"

text \<open>
  \<open>detectability.interpolate\<close> (lines 333-419). The assertion comes before the look at
  the cache. Whatever object the file holds is loaded, stored in the slot and returned.
\<close>

definition interpolate ::
  "env \<Rightarrow> world \<Rightarrow> detectability \<Rightarrow> py_error + (artifact \<times> world \<times> detectability)" where
  "interpolate e w d =
     (case self_interpolate d of
        Some interpolant \<Rightarrow> Inr (interpolant, w, d)
      | None \<Rightarrow>
          if \<not> has_pycbc (args d) then Inl (AssertionError ''pycbc is needed'')
          else
            (case (if \<not> isfile w (self_binfile d) then detectability_build e w d
                   else Inr (w, d)) of
               Inl err \<Rightarrow> Inl err
             | Inr (w', d') \<Rightarrow>
                 (case files w' (self_binfile d) of
                    None \<Rightarrow> Inl (IOError (self_binfile d))
                  | Some interpolant \<Rightarrow>
                      Inr (interpolant, w', d'\<lparr>self_interpolate := Some interpolant\<rparr>))))"

text \<open>
  \<open>detectability.eval\<close> (lines 422-433): the three inputs are promoted to sequences and
  transposed into a list of points, which needs them to have one length. A loaded object
  that is a distribution and not a grid interpolant returns, when called, an object that
  has no length, and line 433 raises TypeError.
\<close>

definition detectability_eval ::
  "env \<Rightarrow> world \<Rightarrow> detectability \<Rightarrow> pyval \<Rightarrow> pyval \<Rightarrow> pyval
     \<Rightarrow> py_error + (pyval \<times> world \<times> detectability)" where
  "detectability_eval e w d m1 m2 z =
     (let m1' = promote m1; m2' = promote m2; z' = promote z
      in (case interpolate e w d of
            Inl err \<Rightarrow> Inl err
          | Inr (interpolant, w', d') \<Rightarrow>
              (case interpolant of
                 HistDist h \<Rightarrow> Inl (TypeError ''object of type rv_frozen has no len()'')
               | GridInterpolant itp \<Rightarrow>
                   if length m1' \<noteq> length m2' \<or> length m2' \<noteq> length z'
                   then Inl (ValueError ''the inputs have different lengths'')
                   else
                     (case rgi_call3 itp (zip m1' (zip m2' z')) of
                        Inl err \<Rightarrow> Inl err
                      | Inr interpolated_values \<Rightarrow>
                          (case demote interpolated_values of
                             Inl err \<Rightarrow> Inl err
                           | Inr v \<Rightarrow> Inr (v, w', d'))))))"

text \<open>
  \<open>detectability.__call__\<close> (lines 435-436) takes exactly three arguments besides the
  object; any other number of arguments is a TypeError of the call.
\<close>

definition detectability_call ::
  "env \<Rightarrow> world \<Rightarrow> detectability \<Rightarrow> pyval list
     \<Rightarrow> py_error + (pyval \<times> world \<times> detectability)" where
  "detectability_call e w d argv =
     (case argv of
        [m1, m2, z] \<Rightarrow> detectability_eval e w d m1 m2 z
      | _ \<Rightarrow> Inl (TypeError ''__call__() takes exactly 4 arguments''))"

text \<open>
  \<open>detectability.compute\<close> (lines 231-236). The method has no decorator, so its first
  parameter \<open>cls\<close> is the object itself and \<open>cls()\<close> calls the object with no argument.
  What \<open>__call__\<close> returns is a number or a vector, which has no attribute \<open>snr\<close>.
\<close>

definition compute ::
  "env \<Rightarrow> world \<Rightarrow> detectability \<Rightarrow> pyval \<Rightarrow> pyval \<Rightarrow> pyval
     \<Rightarrow> py_error + (pyval \<times> world \<times> detectability)" where
  "compute e w cls m1 m2 z =
     (case detectability_call e w cls [] of
        Inl err \<Rightarrow> Inl err
      | Inr (istance, w', d') \<Rightarrow> Inl (AttributeError ''snr''))"

text \<open>
  The module function \<open>snr_pickable\<close> (line 122): it constructs an object with the
  default arguments, in the world as it is, and calls \<open>_snr\<close> on it.
\<close>

definition snr_pickable :: "env \<Rightarrow> world \<Rightarrow> real \<times> real \<Rightarrow> py_error + real" where
  "snr_pickable e w x = private_snr e (detectability_init e w (default_args e)) x"

section \<open>A small configuration to run the model on\<close>

text \<open>
  An environment with a toy waveform provider and cosmology, a constant random stream and
  the reversing permutation; arguments with a grid of two points per axis and an explicit
  file name; a world whose cache already holds that file and a distribution file.
\<close>

definition demo_env :: env where
  "demo_env =
     \<lparr>str_float = (\<lambda>x. ''1.0''), module_directory = ''detprob_data'',
      pycbc = Some (\<lambda>approximant m1 m2 delta_f f_lower distance psd. (m1 + m2) / distance),
      luminosity_distance = (\<lambda>z. 1 + z), cpu_count = 4,
      random_stream = (\<lambda>i. 1 / 2), permutation = (\<lambda>n. rev [0..<n])\<rparr>"

definition demo_args :: detectability_args where
  "demo_args = (default_args demo_env)\<lparr>mc1d := 2, binfile := Some ''grid.pkl''\<rparr>"

definition demo_interpolant :: "real list list list rgi" where
  "demo_interpolant =
     \<lparr>points = [[1, 100], [1, 100], [0, 2]],
      values' = [[[1, 0], [1, 0]], [[1, 1], [1, 1]]],
      bounds_error = False, fill_value = None\<rparr>"

definition demo_hist :: hist where
  "demo_hist = \<lparr>counts = [1, 3], edges = [0, 1 / 2, 1]\<rparr>"

definition demo_world :: world where
  "demo_world =
     \<lparr>files = [''detprob_data/grid.pkl'' \<mapsto> GridInterpolant demo_interpolant,
               ''detprob_data/pw.pkl'' \<mapsto> HistDist demo_hist],
      dirs = {''detprob_data''}, rng = 0, mc_calls = 0, fn_calls = 0\<rparr>"

section \<open>Facts about the mesh and the dispatch\<close>

lemma enumerate_map_nth:
  "map (\<lambda>(i, a). f i a) (enumerate 0 xs) = map (\<lambda>i. f i (xs ! i)) [0..<length xs]"
  by (rule nth_equalityI) (simp_all add: nth_enumerate_eq)

lemma meshcoord2_alt:
  "meshcoord2 g1 g2 = concat (map (\<lambda>i. map (\<lambda>j. (i, j)) [0..<length g2]) [0..<length g1])"
  unfolding meshcoord2_def by (simp add: enumerate_map_nth)

lemma meshgrid2_alt:
  "meshgrid2 g1 g2 =
     concat (map (\<lambda>i. map (\<lambda>j. (g1 ! i, g2 ! j)) [0..<length g2]) [0..<length g1])"
  unfolding meshgrid2_def by (simp add: enumerate_map_nth)

lemma meshgrid2_map:
  "meshgrid2 g1 g2 = map (\<lambda>(i, j). (g1 ! i, g2 ! j)) (meshcoord2 g1 g2)"
  by (simp add: meshgrid2_alt meshcoord2_alt map_concat comp_def)

lemma set_meshcoord2: "set (meshcoord2 g1 g2) = {..<length g1} \<times> {..<length g2}"
  by (auto simp: meshcoord2_alt)

lemma length_meshcoord2: "length (meshcoord2 g1 g2) = length g1 * length g2"
  by (simp add: meshcoord2_alt length_concat comp_def sum_list_triv)

lemma length_meshgrid2: "length (meshgrid2 g1 g2) = length (meshcoord2 g1 g2)"
  by (simp add: meshgrid2_map)

lemma take_indices_perm:
  assumes "mset p = mset [0..<length xs]"
  shows "take_indices xs p = Inr (map (\<lambda>k. xs ! k) p)"
proof -
  from assms have "set p = set [0..<length xs]" by (rule mset_eq_setD)
  then show ?thesis by (auto simp: take_indices_def list_all_iff)
qed

lemma linspace_nonneg: "0 \<le> n \<Longrightarrow> \<exists>g. linspace a b n = Inr g \<and> length g = nat n"
  by (auto simp: linspace_def)

section \<open>The exact path \<open>compute\<close>\<close>

text \<open>
  C3. The claim says that \<open>compute(m1, m2, z)\<close> returns the exact detection probability
  for every input. The code does not: for every object and every input the call raises
  TypeError at its first statement, because \<open>cls()\<close> calls the object without the three
  arguments \<open>__call__\<close> needs. No waveform is computed and nothing is returned.
\<close>

theorem compute_raises:
  "compute e w d m1 m2 z = Inl (TypeError ''__call__() takes exactly 4 arguments'')"
  by (simp add: compute_def detectability_call_def)

section \<open>The cache directory of the projection distribution\<close>

text \<open>
  C4. The claim says that the \<open>pdet\<close> made by \<open>pdetproj()\<close> uses the directory the
  \<open>detectability\<close> object was constructed with. The code passes the module global
  instead: for an object constructed with the directory \<open>/tmp/cache\<close> in a module whose
  global directory is \<open>detprob_data\<close>, the \<open>pdet\<close> has the directory \<open>detprob_data\<close>.
\<close>

theorem pdetproj_ignores_directory_argument:
  "(let e' = e\<lparr>module_directory := ''detprob_data''\<rparr>;
        d = detectability_init e' w ((default_args e')\<lparr>directory := ''/tmp/cache''\<rparr>)
    in directory (args d) = ''/tmp/cache'' \<and>
       p_directory (fst (pdetproj e' d)) = ''detprob_data'')"
  by (simp add: Let_def detectability_init_def pdetproj_def pdet_init_def default_args_def)

section \<open>A parallel object constructed on a warm cache\<close>

text \<open>
  C10. If a \<open>detectability\<close> object is constructed with \<open>parallel=True\<close> while its cache
  file exists, the constructor assigns no \<open>map\<close> attribute; a later call of
  \<open>snrinterpolant()\<close> on that object, in whatever state the world then is, raises
  AttributeError at \<open>self.map\<close> instead of building the SNR grid, although \<open>has_pycbc\<close>
  holds. The grid size \<open>mc1d\<close> is not negative (a negative size makes \<open>np.linspace\<close>
  raise before the dispatch), and the permutation numpy draws is a permutation.
\<close>

theorem snrinterpolant_without_pool:
  assumes "parallel a" and "has_pycbc a" and "isfile w (detectability_binfile_path e a)"
    and "0 \<le> mc1d a"
    and "mset (permutation e (nat (mc1d a) * nat (mc1d a)))
           = mset [0..<nat (mc1d a) * nat (mc1d a)]"
  shows "self_map (detectability_init e w a) = None \<and>
         snrinterpolant e w' (detectability_init e w a) = Inl (AttributeError ''map'')"
proof -
  let ?d = "detectability_init e w a"
  have m: "self_map ?d = None" and ar: "args ?d = a" and s: "self_snrinterpolant ?d = None"
    using assms(1,3) by (simp_all add: detectability_init_def Let_def)
  obtain g where
    g: "linspace (massmin a * (1 + zmin a)) (massmax a * (1 + zmax a)) (mc1d a) = Inr g"
    and lg: "length g = nat (mc1d a)"
    using linspace_nonneg[OF assms(4)] by blast
  have len: "length (meshcoord2 g g) = nat (mc1d a) * nat (mc1d a)"
    by (simp add: length_meshcoord2 lg)
  have "dispatch e ?d (private_snr e ?d) (meshcoord2 g g) (meshgrid2 g g)
          = Inl (AttributeError ''map'')"
    using assms(1,5) m
    by (simp add: dispatch_def ar Let_def len take_indices_perm length_meshgrid2)
  then have "grid_values2 e ?d (private_snr e ?d) g g = Inl (AttributeError ''map'')"
    by (simp add: grid_values2_def)
  then show ?thesis
    using m s assms(2) g by (simp add: snrinterpolant_def ar)
qed

theorem snrinterpolant_without_pool_witness:
  "parallel demo_args \<and> has_pycbc demo_args \<and>
   isfile demo_world (detectability_binfile_path demo_env demo_args) \<and>
   0 \<le> mc1d demo_args \<and>
   self_map (detectability_init demo_env demo_world demo_args) = None \<and>
   snrinterpolant demo_env demo_world (detectability_init demo_env demo_world demo_args)
     = Inl (AttributeError ''map'')"
proof -
  have h: "parallel demo_args" "has_pycbc demo_args"
      "isfile demo_world (detectability_binfile_path demo_env demo_args)"
      "0 \<le> mc1d demo_args"
    by (simp_all add: demo_args_def demo_env_def default_args_def demo_world_def isfile_def
          detectability_binfile_path_def)
  have p: "mset (permutation demo_env (nat (mc1d demo_args) * nat (mc1d demo_args)))
             = mset [0..<nat (mc1d demo_args) * nat (mc1d demo_args)]"
    by (simp add: demo_env_def)
  show ?thesis
    using snrinterpolant_without_pool [OF h p, of demo_world] h by simp
qed

section \<open>Parallel and sequential builds assemble the same array\<close>

lemma map_result_total: "map_result (\<lambda>x. Inr (f x)) xs = Inr (map f xs)"
  by (induction xs) simp_all

lemma scatter2_tagged:
  assumes "length arr = n1" and "\<forall>r\<in>set arr. length r = n2"
    and "set cs \<subseteq> {..<n1} \<times> {..<n2}"
  shows "\<exists>arr'. scatter2 arr (map (\<lambda>c. (c, h c)) cs) = Inr arr' \<and> length arr' = n1 \<and>
           (\<forall>r\<in>set arr'. length r = n2) \<and>
           (\<forall>i<n1. \<forall>j<n2. arr' ! i ! j = (if (i, j) \<in> set cs then h (i, j) else arr ! i ! j))"
  using assms
proof (induction cs arbitrary: arr)
  case Nil
  then show ?case by simp
next
  case (Cons c cs)
  obtain i j where c: "c = (i, j)" by (cases c)
  from Cons.prems c have ij: "i < n1" "j < n2" by auto
  let ?arr1 = "arr[i := (arr ! i)[j := h (i, j)]]"
  have l1: "length ?arr1 = n1" using Cons.prems(1) by simp
  have r1: "\<forall>r\<in>set ?arr1. length r = n2"
  proof
    fix r assume "r \<in> set ?arr1"
    then have "r \<in> insert ((arr ! i)[j := h (i, j)]) (set arr)"
      using set_update_subset_insert by fastforce
    moreover have "length (arr ! i) = n2" using Cons.prems(1,2) ij by simp
    ultimately show "length r = n2" using Cons.prems(2) by auto
  qed
  have s1: "set cs \<subseteq> {..<n1} \<times> {..<n2}" using Cons.prems(3) by simp
  from Cons.IH[OF l1 r1 s1] obtain arr' where
    a: "scatter2 ?arr1 (map (\<lambda>c. (c, h c)) cs) = Inr arr'" and
    b: "length arr' = n1" "\<forall>r\<in>set arr'. length r = n2" and
    v: "\<forall>i'<n1. \<forall>j'<n2. arr' ! i' ! j' = (if (i', j') \<in> set cs then h (i', j') else ?arr1 ! i' ! j')"
    by blast
  have rowlen: "length (arr ! i) = n2" using Cons.prems(1,2) ij by simp
  have step: "scatter2 arr (map (\<lambda>c. (c, h c)) (c # cs)) = Inr arr'"
    using a ij Cons.prems(1) rowlen by (simp add: c)
  have "\<forall>i'<n1. \<forall>j'<n2. arr' ! i' ! j' = (if (i', j') \<in> set (c # cs) then h (i', j') else arr ! i' ! j')"
  proof (intro allI impI)
    fix i' j' assume lt: "i' < n1" "j' < n2"
    have u: "?arr1 ! i' ! j' = (if (i', j') = (i, j) then h (i, j) else arr ! i' ! j')"
      using lt ij Cons.prems(1) rowlen by (auto simp: nth_list_update)
    show "arr' ! i' ! j' = (if (i', j') \<in> set (c # cs) then h (i', j') else arr ! i' ! j')"
      using v lt u by (auto simp: c)
  qed
  with step b show ?case by blast
qed

lemma scatter2_full:
  assumes "set cs = {..<n1} \<times> {..<n2}"
  shows "scatter2 (replicate n1 (replicate n2 0)) (map (\<lambda>c. (c, h c)) cs)
           = Inr (map (\<lambda>i. map (\<lambda>j. h (i, j)) [0..<n2]) [0..<n1])"
proof -
  from assms have sub: "set cs \<subseteq> {..<n1} \<times> {..<n2}" by simp
  obtain arr' where
    a: "scatter2 (replicate n1 (replicate n2 0)) (map (\<lambda>c. (c, h c)) cs) = Inr arr'" and
    l: "length arr' = n1" and r: "\<forall>r\<in>set arr'. length r = n2" and
    v: "\<forall>i<n1. \<forall>j<n2. arr' ! i ! j =
          (if (i, j) \<in> set cs then h (i, j) else replicate n1 (replicate n2 0) ! i ! j)"
    using scatter2_tagged[of "replicate n1 (replicate n2 0)" n1 n2 cs h, OF _ _ sub] by auto
  have "arr' = map (\<lambda>i. map (\<lambda>j. h (i, j)) [0..<n2]) [0..<n1]"
  proof (rule nth_equalityI)
    show "length arr' = length (map (\<lambda>i. map (\<lambda>j. h (i, j)) [0..<n2]) [0..<n1])"
      using l by simp
  next
    fix i assume "i < length arr'"
    then have i: "i < n1" using l by simp
    then have li: "length (arr' ! i) = n2" using r l by simp
    have "arr' ! i = map (\<lambda>j. h (i, j)) [0..<n2]"
    proof (rule nth_equalityI)
      show "length (arr' ! i) = length (map (\<lambda>j. h (i, j)) [0..<n2])" using li by simp
    next
      fix j assume "j < length (arr' ! i)"
      then have j: "j < n2" using li by simp
      then show "arr' ! i ! j = map (\<lambda>j. h (i, j)) [0..<n2] ! j"
        using v i assms by simp
    qed
    then show "arr' ! i = map (\<lambda>i. map (\<lambda>j. h (i, j)) [0..<n2]) [0..<n1] ! i"
      using i by simp
  qed
  with a show ?thesis by simp
qed

lemma set_take_perm:
  assumes "set p = {0..<length mc}"
  shows "set (map (\<lambda>k. mc ! k) p) = set mc"
proof -
  have "set (map (\<lambda>k. mc ! k) p) = (\<lambda>k. mc ! k) ` {0..<length mc}"
    using assms by simp
  also have "\<dots> = set (map (\<lambda>k. mc ! k) [0..<length mc])"
    by simp
  also have "\<dots> = set mc"
    by (simp only: map_nth)
  finally show ?thesis .
qed

lemma map_nth_map:
  assumes "set p = {0..<length mc}"
  shows "map (\<lambda>k. map g mc ! k) p = map g (map (\<lambda>k. mc ! k) p)"
  using assms by (auto simp: comp_def)

lemma dispatch_total:
  assumes "parallel (args d) \<Longrightarrow>
             self_map d \<noteq> None \<and> mset (permutation e (length mc)) = mset [0..<length mc]"
  shows "\<exists>cs. dispatch e d (\<lambda>x. Inr (f x)) mc (map g mc) = Inr (cs, map (\<lambda>c. f (g c)) cs)
           \<and> set cs = set mc"
proof (cases "parallel (args d)")
  case False
  then show ?thesis
    by (simp add: dispatch_def map_result_total comp_def)
next
  case True
  let ?p = "permutation e (length mc)"
  let ?cs = "map (\<lambda>k. mc ! k) ?p"
  from assms[OF True] obtain imap where m: "self_map d = Some imap"
    and p: "mset ?p = mset [0..<length mc]" by auto
  from p have "set ?p = set [0..<length mc]" by (rule mset_eq_setD)
  then have sp: "set ?p = {0..<length mc}" by simp
  have t1: "take_indices mc ?p = Inr ?cs"
    using p by (rule take_indices_perm)
  have "take_indices (map g mc) ?p = Inr (map (\<lambda>k. map g mc ! k) ?p)"
    by (rule take_indices_perm) (simp add: p)
  then have t2: "take_indices (map g mc) ?p = Inr (map g ?cs)"
    by (simp only: map_nth_map[OF sp])
  have r: "map_result (\<lambda>x. Inr (f x)) (map g ?cs) = Inr (map (\<lambda>c. f (g c)) ?cs)"
    by (simp only: map_result_total map_map comp_def)
  have "dispatch e d (\<lambda>x. Inr (f x)) mc (map g mc) = Inr (?cs, map (\<lambda>c. f (g c)) ?cs)"
    unfolding dispatch_def Let_def using True m
    by (simp only: t1 t2 r if_True sum.case option.case)
  moreover have "set ?cs = set mc"
    using sp by (rule set_take_perm)
  ultimately show ?thesis by blast
qed

lemma zip_tagged: "zip cs (map h cs) = map (\<lambda>c. (c, h c)) cs"
  by (induction cs) simp_all

lemma grid_values2_total:
  assumes "parallel (args d) \<Longrightarrow>
             self_map d \<noteq> None \<and>
             mset (permutation e (length g1 * length g2)) = mset [0..<length g1 * length g2]"
  shows "grid_values2 e d (\<lambda>x. Inr (fn x)) g1 g2
           = Inr (map (\<lambda>i. map (\<lambda>j. fn (g1 ! i, g2 ! j)) [0..<length g2]) [0..<length g1])"
proof -
  let ?g = "\<lambda>(i, j). (g1 ! i, g2 ! j)"
  let ?h = "\<lambda>c. fn (?g c)"
  have "parallel (args d) \<Longrightarrow> self_map d \<noteq> None \<and>
          mset (permutation e (length (meshcoord2 g1 g2))) = mset [0..<length (meshcoord2 g1 g2)]"
    using assms by (simp add: length_meshcoord2)
  from dispatch_total[of d e "meshcoord2 g1 g2" fn ?g, OF this]
  obtain cs where
    d: "dispatch e d (\<lambda>x. Inr (fn x)) (meshcoord2 g1 g2) (map ?g (meshcoord2 g1 g2))
          = Inr (cs, map ?h cs)"
    and s: "set cs = set (meshcoord2 g1 g2)"
    by blast
  have "scatter2 (replicate (length g1) (replicate (length g2) 0)) (map (\<lambda>c. (c, ?h c)) cs)
        = Inr (map (\<lambda>i. map (\<lambda>j. ?h (i, j)) [0..<length g2]) [0..<length g1])"
    by (rule scatter2_full) (simp only: s set_meshcoord2)
  then have "scatter2 (replicate (length g1) (replicate (length g2) 0)) (zip cs (map ?h cs))
        = Inr (map (\<lambda>i. map (\<lambda>j. fn (g1 ! i, g2 ! j)) [0..<length g2]) [0..<length g1])"
    by (simp only: zip_tagged prod.case)
  then show ?thesis
    unfolding grid_values2_def meshgrid2_map by (simp only: d sum.case prod.case)
qed

lemma meshcoord3_alt:
  "meshcoord3 g1 g2 g3 =
     concat (map (\<lambda>i. concat (map (\<lambda>j. map (\<lambda>k. (i, j, k)) [0..<length g3]) [0..<length g2]))
       [0..<length g1])"
  unfolding meshcoord3_def by (simp add: enumerate_map_nth)

lemma meshgrid3_alt:
  "meshgrid3 g1 g2 g3 =
     concat (map (\<lambda>i. concat (map (\<lambda>j. map (\<lambda>k. (g1 ! i, g2 ! j, g3 ! k)) [0..<length g3])
       [0..<length g2])) [0..<length g1])"
  unfolding meshgrid3_def by (simp add: enumerate_map_nth)

lemma meshgrid3_map:
  "meshgrid3 g1 g2 g3 = map (\<lambda>(i, j, k). (g1 ! i, g2 ! j, g3 ! k)) (meshcoord3 g1 g2 g3)"
  by (simp add: meshgrid3_alt meshcoord3_alt map_concat comp_def)

lemma set_meshcoord3:
  "set (meshcoord3 g1 g2 g3) = {..<length g1} \<times> {..<length g2} \<times> {..<length g3}"
proof (rule set_eqI)
  fix c :: "nat \<times> nat \<times> nat"
  obtain i j k where c: "c = (i, j, k)" by (cases c)
  show "c \<in> set (meshcoord3 g1 g2 g3) \<longleftrightarrow> c \<in> {..<length g1} \<times> {..<length g2} \<times> {..<length g3}"
    unfolding c meshcoord3_alt by (simp add: image_iff) 
qed

lemma length_meshcoord3: "length (meshcoord3 g1 g2 g3) = length g1 * length g2 * length g3"
  by (simp add: meshcoord3_alt length_concat comp_def sum_list_triv)

lemma scatter3_tagged:
  assumes "length arr = n1" and "\<forall>r\<in>set arr. length r = n2 \<and> (\<forall>q\<in>set r. length q = n3)"
    and "set cs \<subseteq> {..<n1} \<times> {..<n2} \<times> {..<n3}"
  shows "\<exists>arr'. scatter3 arr (map (\<lambda>c. (c, h c)) cs) = Inr arr' \<and> length arr' = n1 \<and>
           (\<forall>r\<in>set arr'. length r = n2 \<and> (\<forall>q\<in>set r. length q = n3)) \<and>
           (\<forall>i<n1. \<forall>j<n2. \<forall>k<n3.
              arr' ! i ! j ! k = (if (i, j, k) \<in> set cs then h (i, j, k) else arr ! i ! j ! k))"
  using assms
proof (induction cs arbitrary: arr)
  case Nil
  then show ?case by simp
next
  case (Cons c cs)
  obtain i j k where c: "c = (i, j, k)" by (cases c)
  from Cons.prems c have ijk: "i < n1" "j < n2" "k < n3" by auto
  have rowlen: "length (arr ! i) = n2" using Cons.prems(1,2) ijk by simp
  have rowin: "arr ! i \<in> set arr" using Cons.prems(1) ijk by simp
  have colin: "arr ! i ! j \<in> set (arr ! i)" using rowlen ijk by simp
  have collen: "length (arr ! i ! j) = n3" using Cons.prems(2) rowin colin by blast
  let ?q = "(arr ! i ! j)[k := h (i, j, k)]"
  let ?r = "(arr ! i)[j := ?q]"
  let ?arr1 = "arr[i := ?r]"
  have l1: "length ?arr1 = n1" using Cons.prems(1) by simp
  have rq: "length ?r = n2 \<and> (\<forall>q\<in>set ?r. length q = n3)"
  proof
    show "length ?r = n2" using rowlen by simp
    show "\<forall>q\<in>set ?r. length q = n3"
    proof
      fix q assume "q \<in> set ?r"
      then have "q \<in> insert ?q (set (arr ! i))"
        using set_update_subset_insert by fastforce
      then show "length q = n3" using collen Cons.prems(2) rowin by auto
    qed
  qed
  have r1: "\<forall>r\<in>set ?arr1. length r = n2 \<and> (\<forall>q\<in>set r. length q = n3)"
  proof
    fix r assume "r \<in> set ?arr1"
    then have "r \<in> insert ?r (set arr)"
      using set_update_subset_insert by fastforce
    then show "length r = n2 \<and> (\<forall>q\<in>set r. length q = n3)"
      using rq Cons.prems(2) by blast
  qed
  have s1: "set cs \<subseteq> {..<n1} \<times> {..<n2} \<times> {..<n3}" using Cons.prems(3) by simp
  from Cons.IH[OF l1 r1 s1] obtain arr' where
    a: "scatter3 ?arr1 (map (\<lambda>c. (c, h c)) cs) = Inr arr'" and
    b: "length arr' = n1" "\<forall>r\<in>set arr'. length r = n2 \<and> (\<forall>q\<in>set r. length q = n3)" and
    v: "\<forall>i'<n1. \<forall>j'<n2. \<forall>k'<n3. arr' ! i' ! j' ! k' =
          (if (i', j', k') \<in> set cs then h (i', j', k') else ?arr1 ! i' ! j' ! k')"
    by blast
  have step: "scatter3 arr (map (\<lambda>c. (c, h c)) (c # cs)) = Inr arr'"
    using a ijk Cons.prems(1) rowlen collen by (simp add: c)
  have "\<forall>i'<n1. \<forall>j'<n2. \<forall>k'<n3. arr' ! i' ! j' ! k' =
          (if (i', j', k') \<in> set (c # cs) then h (i', j', k') else arr ! i' ! j' ! k')"
  proof (intro allI impI)
    fix i' j' k' assume lt: "i' < n1" "j' < n2" "k' < n3"
    have u: "?arr1 ! i' ! j' ! k' = (if (i', j', k') = (i, j, k) then h (i, j, k) else arr ! i' ! j' ! k')"
      using lt ijk Cons.prems(1) rowlen collen by (auto simp: nth_list_update)
    show "arr' ! i' ! j' ! k' =
            (if (i', j', k') \<in> set (c # cs) then h (i', j', k') else arr ! i' ! j' ! k')"
      using v lt u by (auto simp: c)
  qed
  with step b show ?case by blast
qed

lemma scatter3_full:
  assumes "set cs = {..<n1} \<times> {..<n2} \<times> {..<n3}"
  shows "scatter3 (replicate n1 (replicate n2 (replicate n3 0))) (map (\<lambda>c. (c, h c)) cs)
           = Inr (map (\<lambda>i. map (\<lambda>j. map (\<lambda>k. h (i, j, k)) [0..<n3]) [0..<n2]) [0..<n1])"
proof -
  let ?z = "replicate n1 (replicate n2 (replicate n3 (0::real)))"
  from assms have sub: "set cs \<subseteq> {..<n1} \<times> {..<n2} \<times> {..<n3}" by simp
  have z1: "length ?z = n1" by simp
  have z2: "\<forall>r\<in>set ?z. length r = n2 \<and> (\<forall>q\<in>set r. length q = n3)" by auto
  obtain arr' where
    a: "scatter3 ?z (map (\<lambda>c. (c, h c)) cs) = Inr arr'" and
    l: "length arr' = n1" and
    r: "\<forall>r\<in>set arr'. length r = n2 \<and> (\<forall>q\<in>set r. length q = n3)" and
    v: "\<forall>i<n1. \<forall>j<n2. \<forall>k<n3. arr' ! i ! j ! k =
          (if (i, j, k) \<in> set cs then h (i, j, k) else ?z ! i ! j ! k)"
    using scatter3_tagged[OF z1 z2 sub, of h] by blast
  have "arr' = map (\<lambda>i. map (\<lambda>j. map (\<lambda>k. h (i, j, k)) [0..<n3]) [0..<n2]) [0..<n1]"
  proof (rule nth_equalityI)
    show "length arr' = length (map (\<lambda>i. map (\<lambda>j. map (\<lambda>k. h (i, j, k)) [0..<n3]) [0..<n2]) [0..<n1])"
      using l by simp
  next
    fix i assume "i < length arr'"
    then have i: "i < n1" using l by simp
    then have ri: "arr' ! i \<in> set arr'" using l by simp
    then have li: "length (arr' ! i) = n2" using r by blast
    have "arr' ! i = map (\<lambda>j. map (\<lambda>k. h (i, j, k)) [0..<n3]) [0..<n2]"
    proof (rule nth_equalityI)
      show "length (arr' ! i) = length (map (\<lambda>j. map (\<lambda>k. h (i, j, k)) [0..<n3]) [0..<n2])"
        using li by simp
    next
      fix j assume "j < length (arr' ! i)"
      then have j: "j < n2" using li by simp
      then have "arr' ! i ! j \<in> set (arr' ! i)" using li by simp
      then have lj: "length (arr' ! i ! j) = n3" using r ri by blast
      have "arr' ! i ! j = map (\<lambda>k. h (i, j, k)) [0..<n3]"
      proof (rule nth_equalityI)
        show "length (arr' ! i ! j) = length (map (\<lambda>k. h (i, j, k)) [0..<n3])" using lj by simp
      next
        fix k assume "k < length (arr' ! i ! j)"
        then have k: "k < n3" using lj by simp
        then show "arr' ! i ! j ! k = map (\<lambda>k. h (i, j, k)) [0..<n3] ! k"
          using v i j assms by simp
      qed
      then show "arr' ! i ! j = map (\<lambda>j. map (\<lambda>k. h (i, j, k)) [0..<n3]) [0..<n2] ! j"
        using j by simp
    qed
    then show "arr' ! i = map (\<lambda>i. map (\<lambda>j. map (\<lambda>k. h (i, j, k)) [0..<n3]) [0..<n2]) [0..<n1] ! i"
      using i by simp
  qed
  with a show ?thesis by simp
qed

lemma grid_values3_total:
  assumes "parallel (args d) \<Longrightarrow>
             self_map d \<noteq> None \<and>
             mset (permutation e (length g1 * length g2 * length g3))
               = mset [0..<length g1 * length g2 * length g3]"
  shows "grid_values3 e d (\<lambda>x. Inr (fn x)) g1 g2 g3
           = Inr (map (\<lambda>i. map (\<lambda>j. map (\<lambda>k. fn (g1 ! i, g2 ! j, g3 ! k)) [0..<length g3])
                    [0..<length g2]) [0..<length g1])"
proof -
  let ?g = "\<lambda>(i, j, k). (g1 ! i, g2 ! j, g3 ! k)"
  let ?h = "\<lambda>c. fn (?g c)"
  have "parallel (args d) \<Longrightarrow> self_map d \<noteq> None \<and>
          mset (permutation e (length (meshcoord3 g1 g2 g3)))
            = mset [0..<length (meshcoord3 g1 g2 g3)]"
    using assms by (simp add: length_meshcoord3)
  from dispatch_total[of d e "meshcoord3 g1 g2 g3" fn ?g, OF this]
  obtain cs where
    d: "dispatch e d (\<lambda>x. Inr (fn x)) (meshcoord3 g1 g2 g3) (map ?g (meshcoord3 g1 g2 g3))
          = Inr (cs, map ?h cs)"
    and s: "set cs = set (meshcoord3 g1 g2 g3)"
    by blast
  have "scatter3 (replicate (length g1) (replicate (length g2) (replicate (length g3) 0)))
          (map (\<lambda>c. (c, ?h c)) cs)
        = Inr (map (\<lambda>i. map (\<lambda>j. map (\<lambda>k. ?h (i, j, k)) [0..<length g3]) [0..<length g2])
                 [0..<length g1])"
    by (rule scatter3_full) (simp only: s set_meshcoord3)
  then have "scatter3 (replicate (length g1) (replicate (length g2) (replicate (length g3) 0)))
          (zip cs (map ?h cs))
        = Inr (map (\<lambda>i. map (\<lambda>j. map (\<lambda>k. fn (g1 ! i, g2 ! j, g3 ! k)) [0..<length g3])
                 [0..<length g2]) [0..<length g1])"
    by (simp only: zip_tagged prod.case)
  then show ?thesis
    unfolding grid_values3_def meshgrid3_map by (simp only: d sum.case prod.case)
qed

text \<open>
  C2. For every per-point function \<open>fn\<close> that returns a value at every point and every
  grid, the parallel build (an object with \<open>parallel\<close> set and a pool, the two lists
  permuted by the permutation numpy draws, the results scattered by index tag) and the
  sequential build (an object with \<open>parallel\<close> unset) assemble the same dense array, and
  the entry at \<open>[i, j]\<close> (at \<open>[i, j, k]\<close>) is \<open>fn\<close> at the coordinates of that grid
  point, whatever the permutation is.
\<close>

theorem parallel_build_equals_sequential:
  assumes "parallel (args dp)" and "self_map dp = Some imap" and "\<not> parallel (args ds)"
    and "mset (permutation e (length g1 * length g2)) = mset [0..<length g1 * length g2]"
    and "mset (permutation e (length g1 * length g2 * length g3))
           = mset [0..<length g1 * length g2 * length g3]"
  shows "grid_values2 e dp (\<lambda>x. Inr (fn2 x)) g1 g2 = grid_values2 e ds (\<lambda>x. Inr (fn2 x)) g1 g2
       \<and> grid_values2 e dp (\<lambda>x. Inr (fn2 x)) g1 g2
           = Inr (map (\<lambda>i. map (\<lambda>j. fn2 (g1 ! i, g2 ! j)) [0..<length g2]) [0..<length g1])
       \<and> grid_values3 e dp (\<lambda>x. Inr (fn3 x)) g1 g2 g3
           = grid_values3 e ds (\<lambda>x. Inr (fn3 x)) g1 g2 g3
       \<and> grid_values3 e dp (\<lambda>x. Inr (fn3 x)) g1 g2 g3
           = Inr (map (\<lambda>i. map (\<lambda>j. map (\<lambda>k. fn3 (g1 ! i, g2 ! j, g3 ! k)) [0..<length g3])
                    [0..<length g2]) [0..<length g1])"
proof -
  have p2: "grid_values2 e dp (\<lambda>x. Inr (fn2 x)) g1 g2
           = Inr (map (\<lambda>i. map (\<lambda>j. fn2 (g1 ! i, g2 ! j)) [0..<length g2]) [0..<length g1])"
    by (rule grid_values2_total) (simp add: assms)
  have s2: "grid_values2 e ds (\<lambda>x. Inr (fn2 x)) g1 g2
           = Inr (map (\<lambda>i. map (\<lambda>j. fn2 (g1 ! i, g2 ! j)) [0..<length g2]) [0..<length g1])"
    by (rule grid_values2_total) (simp add: assms)
  have p3: "grid_values3 e dp (\<lambda>x. Inr (fn3 x)) g1 g2 g3
           = Inr (map (\<lambda>i. map (\<lambda>j. map (\<lambda>k. fn3 (g1 ! i, g2 ! j, g3 ! k)) [0..<length g3])
                    [0..<length g2]) [0..<length g1])"
    by (rule grid_values3_total) (simp add: assms)
  have s3: "grid_values3 e ds (\<lambda>x. Inr (fn3 x)) g1 g2 g3
           = Inr (map (\<lambda>i. map (\<lambda>j. map (\<lambda>k. fn3 (g1 ! i, g2 ! j, g3 ! k)) [0..<length g3])
                    [0..<length g2]) [0..<length g1])"
    by (rule grid_values3_total) (simp add: assms)
  show ?thesis by (simp only: p2 s2 p3 s3 simp_thms)
qed

theorem parallel_build_equals_sequential_witness:
  "parallel (args (detectability_init demo_env (demo_world\<lparr>files := Map.empty\<rparr>) demo_args)) \<and>
   self_map (detectability_init demo_env (demo_world\<lparr>files := Map.empty\<rparr>) demo_args)
     = Some (ProcessingPool 4) \<and>
   \<not> parallel (args (detectability_init demo_env demo_world (demo_args\<lparr>parallel := False\<rparr>))) \<and>
   grid_values2 demo_env (detectability_init demo_env (demo_world\<lparr>files := Map.empty\<rparr>) demo_args)
     (\<lambda>x. Inr (fst x * snd x)) [1, 2] [3, 4] = Inr [[3, 4], [6, 8]] \<and>
   grid_values2 demo_env (detectability_init demo_env demo_world (demo_args\<lparr>parallel := False\<rparr>))
     (\<lambda>x. Inr (fst x * snd x)) [1, 2] [3, 4] = Inr [[3, 4], [6, 8]] \<and>
   grid_values3 demo_env (detectability_init demo_env (demo_world\<lparr>files := Map.empty\<rparr>) demo_args)
     (\<lambda>x. Inr (fst x * fst (snd x) + snd (snd x))) [1, 2] [3, 4] [5, 6]
     = Inr [[[8, 9], [9, 10]], [[11, 12], [13, 14]]] \<and>
   grid_values3 demo_env (detectability_init demo_env demo_world (demo_args\<lparr>parallel := False\<rparr>))
     (\<lambda>x. Inr (fst x * fst (snd x) + snd (snd x))) [1, 2] [3, 4] [5, 6]
     = Inr [[[8, 9], [9, 10]], [[11, 12], [13, 14]]]"
proof -
  let ?dp = "detectability_init demo_env (demo_world\<lparr>files := Map.empty\<rparr>) demo_args"
  let ?ds = "detectability_init demo_env demo_world (demo_args\<lparr>parallel := False\<rparr>)"
  have h1: "parallel (args ?dp)" and h2: "self_map ?dp = Some (ProcessingPool 4)"
    and h3: "\<not> parallel (args ?ds)"
    by (simp_all add: detectability_init_def demo_args_def default_args_def demo_env_def
          demo_world_def isfile_def Let_def)
  have h4: "mset (permutation demo_env (length [1, 2 :: real] * length [3, 4 :: real]))
              = mset [0..<length [1, 2 :: real] * length [3, 4 :: real]]"
    and h5: "mset (permutation demo_env
                (length [1, 2 :: real] * length [3, 4 :: real] * length [5, 6 :: real]))
              = mset [0..<length [1, 2 :: real] * length [3, 4 :: real] * length [5, 6 :: real]]"
    by (simp_all add: demo_env_def)
  have u2: "[0..<2] = [0, Suc 0]" by (simp add: upt_rec)
  note t = parallel_build_equals_sequential [OF h1 h2 h3 h4 h5,
        of "\<lambda>x. fst x * snd x" "\<lambda>x. fst x * fst (snd x) + snd (snd x)"]
  note e1 = t [THEN conjunct1]
  note e2 = t [THEN conjunct2, THEN conjunct1]
  note e3 = t [THEN conjunct2, THEN conjunct2, THEN conjunct1]
  note e4 = t [THEN conjunct2, THEN conjunct2, THEN conjunct2]
  have a: "grid_values2 demo_env ?dp (\<lambda>x. Inr (fst x * snd x)) [1, 2] [3, 4]
       = Inr [[3, 4], [6, 8]]"
    using e2 by (simp add: u2)
  have b: "grid_values2 demo_env ?ds (\<lambda>x. Inr (fst x * snd x)) [1, 2] [3, 4]
       = Inr [[3, 4], [6, 8]]"
    using e1 a by simp
  have c: "grid_values3 demo_env ?dp (\<lambda>x. Inr (fst x * fst (snd x) + snd (snd x)))
       [1, 2] [3, 4] [5, 6] = Inr [[[8, 9], [9, 10]], [[11, 12], [13, 14]]]"
    using e4 by (simp add: u2)
  have d: "grid_values3 demo_env ?ds (\<lambda>x. Inr (fst x * fst (snd x) + snd (snd x)))
       [1, 2] [3, 4] [5, 6] = Inr [[[8, 9], [9, 10]], [[11, 12], [13, 14]]]"
    using e3 c by simp
  show ?thesis
    using h1 h2 h3 a b c d by (simp only: simp_thms)
qed

section \<open>The Monte Carlo sampler\<close>

text \<open>
  In the arithmetic of the real numbers the projection parameter of every orientation is
  between 0 and 1. This is a fact about the formula of lines 81-85, not about the values
  the code returns: float64 rounds each operation, and nothing here bounds the rounded
  values.
\<close>

lemma antenna_sum:
  "(Fplus theta phi psi)\<^sup>2 + (Fcross theta phi psi)\<^sup>2
     = (0.5 * (1 + (cos theta)\<^sup>2) * cos (2 * phi))\<^sup>2 + (cos theta * sin (2 * phi))\<^sup>2"
proof -
  define A where "A = 0.5 * (1 + (cos theta)\<^sup>2) * cos (2 * phi)"
  define B where "B = cos theta * sin (2 * phi)"
  have "(Fplus theta phi psi)\<^sup>2 + (Fcross theta phi psi)\<^sup>2
          = (A * cos (2 * psi) - B * sin (2 * psi))\<^sup>2 + (A * sin (2 * psi) + B * cos (2 * psi))\<^sup>2"
    by (simp add: Fplus_def Fcross_def A_def B_def)
  also have "\<dots> = (A\<^sup>2 + B\<^sup>2) * ((sin (2 * psi))\<^sup>2 + (cos (2 * psi))\<^sup>2)"
    by algebra
  also have "\<dots> = A\<^sup>2 + B\<^sup>2"
    by simp
  finally show ?thesis by (simp add: A_def B_def)
qed

lemma antenna_sum_le_1: "(Fplus theta phi psi)\<^sup>2 + (Fcross theta phi psi)\<^sup>2 \<le> 1"
proof -
  have a: "(cos theta)\<^sup>2 \<le> 1" by (simp add: abs_square_le_1)
  have h0: "0 \<le> 0.5 * (1 + (cos theta)\<^sup>2)" by simp
  have h1: "0.5 * (1 + (cos theta)\<^sup>2) \<le> 1" using a by simp
  have "(0.5 * (1 + (cos theta)\<^sup>2))\<^sup>2 \<le> 1\<^sup>2"
    using h1 h0 by (rule power_mono)
  then have A: "(0.5 * (1 + (cos theta)\<^sup>2))\<^sup>2 \<le> 1" by simp
  have "(0.5 * (1 + (cos theta)\<^sup>2) * cos (2 * phi))\<^sup>2
          = (0.5 * (1 + (cos theta)\<^sup>2))\<^sup>2 * (cos (2 * phi))\<^sup>2"
    by (simp only: power_mult_distrib)
  also have "\<dots> \<le> 1 * (cos (2 * phi))\<^sup>2"
    using A by (intro mult_right_mono) simp_all
  finally have t1: "(0.5 * (1 + (cos theta)\<^sup>2) * cos (2 * phi))\<^sup>2 \<le> (cos (2 * phi))\<^sup>2" by simp
  have "(cos theta * sin (2 * phi))\<^sup>2 = (cos theta)\<^sup>2 * (sin (2 * phi))\<^sup>2"
    by (simp only: power_mult_distrib)
  also have "\<dots> \<le> 1 * (sin (2 * phi))\<^sup>2"
    using a by (intro mult_right_mono) simp_all
  finally have t2: "(cos theta * sin (2 * phi))\<^sup>2 \<le> (sin (2 * phi))\<^sup>2" by simp
  have cs: "(cos (2 * phi))\<^sup>2 + (sin (2 * phi))\<^sup>2 = 1" by simp
  show ?thesis
    unfolding antenna_sum using t1 t2 cs by linarith
qed

lemma littleomega_bounds: "0 \<le> littleomega theta phi psi iota \<and> littleomega theta phi psi iota \<le> 1"
proof -
  let ?fp = "(Fplus theta phi psi)\<^sup>2" and ?fc = "(Fcross theta phi psi)\<^sup>2"
  have b: "(cos iota)\<^sup>2 \<le> 1" by (simp add: abs_square_le_1)
  have "(1 + (cos iota)\<^sup>2)\<^sup>2 \<le> 2\<^sup>2"
    using b by (intro power_mono) simp_all
  then have B: "(1 + (cos iota)\<^sup>2)\<^sup>2 / 4 \<le> 1" by simp
  have "?fp * (1 + (cos iota)\<^sup>2)\<^sup>2 / 4 = ?fp * ((1 + (cos iota)\<^sup>2)\<^sup>2 / 4)" by simp
  also have "\<dots> \<le> ?fp * 1" using B by (intro mult_left_mono) simp_all
  finally have t1: "?fp * (1 + (cos iota)\<^sup>2)\<^sup>2 / 4 \<le> ?fp" by simp
  have "?fc * (cos iota)\<^sup>2 \<le> ?fc * 1" using b by (intro mult_left_mono) simp_all
  then have t2: "?fc * (cos iota)\<^sup>2 \<le> ?fc" by simp
  have "?fp * (1 + (cos iota)\<^sup>2)\<^sup>2 / 4 + ?fc * (cos iota)\<^sup>2 \<le> 1"
    using t1 t2 antenna_sum_le_1[of theta phi psi] by linarith
  then have "littleomega theta phi psi iota \<le> 1"
    unfolding littleomega_def by simp
  moreover have "0 \<le> littleomega theta phi psi iota"
    unfolding littleomega_def by (intro real_sqrt_ge_zero add_nonneg_nonneg) simp_all
  ultimately show ?thesis by simp
qed

lemma uniform_ok:
  "0 \<le> n \<Longrightarrow> \<exists>us w'. uniform e w lo hi n = Inr (us, w') \<and> length us = nat n"
  by (simp add: uniform_def)

text \<open>
  What does not depend on the arithmetic: for every \<open>n \<ge> 1\<close>, whatever the random
  stream gives, \<open>montecarlo_samples(n)\<close> returns \<open>n\<close> values, one number when \<open>n = 1\<close>
  and a vector of length \<open>n\<close> otherwise.
\<close>

lemma montecarlo_samples_shape:
  assumes "1 \<le> n"
  shows "\<exists>v w'. montecarlo_samples e w n = Inr (v, w') \<and> length (promote v) = nat n \<and>
           (if n = 1 then \<exists>x. v = Scalar x else \<exists>xs. v = Vector xs)"
proof -
  have n0: "0 \<le> n" using assms by simp
  obtain u1 w1 where u1: "uniform e w (- 1) 1 n = Inr (u1, w1)" and l1: "length u1 = nat n"
    using uniform_ok[OF n0] by blast
  obtain u2 w2 where u2: "uniform e w1 (- 1) 1 n = Inr (u2, w2)" and l2: "length u2 = nat n"
    using uniform_ok[OF n0] by blast
  obtain u3 w3 where u3: "uniform e w2 (- 1) 1 n = Inr (u3, w3)" and l3: "length u3 = nat n"
    using uniform_ok[OF n0] by blast
  obtain u4 w4 where u4: "uniform e w3 (- 1) 1 n = Inr (u4, w4)" and l4: "length u4 = nat n"
    using uniform_ok[OF n0] by blast
  define omega where
    "omega = map (\<lambda>(th, ph, ps, io). littleomega th ph ps io)
               (zip (map arccos u1) (zip (map (\<lambda>u. pi * u) u2)
                  (zip (map (\<lambda>u. pi * u) u3) (map arccos u4))))"
  have lo: "length omega = nat n" by (simp add: omega_def l1 l2 l3 l4)
  have m: "montecarlo_samples e w n =
             (case demote omega of Inl err \<Rightarrow> Inl err
              | Inr v \<Rightarrow> Inr (v, w4\<lparr>mc_calls := mc_calls w4 + 1\<rparr>))"
    by (simp add: montecarlo_samples_def u1 u2 u3 u4 Let_def omega_def)
  show ?thesis
  proof (cases "n = 1")
    case True
    then have "length omega = 1" using lo by simp
    then obtain x where x: "omega = [x]" by (cases omega) auto
    then show ?thesis using True m by (simp add: demote_def)
  next
    case False
    then have "1 < length omega" using lo assms by auto
    then have "demote omega = Inr (Vector omega)" by (simp add: demote_def)
    then show ?thesis using False m lo by simp
  qed
qed

section \<open>A warm cache\<close>

lemma pdet_interpolate_hit:
  assumes "files w (p_binfile p) = Some (HistDist h)" and "p_interpolate p = None"
  shows "pdet_interpolate e w p = Inr (h, w, p\<lparr>p_interpolate := Some h\<rparr>)"
  using assms by (simp add: pdet_interpolate_def isfile_def)

lemma interpolate_hit:
  assumes "files w (self_binfile d) = Some art" and "self_interpolate d = None"
    and "has_pycbc (args d)"
  shows "interpolate e w d = Inr (art, w, d\<lparr>self_interpolate := Some art\<rparr>)"
  using assms by (simp add: interpolate_def isfile_def)

lemma pdet_interpolate_memo:
  assumes "pdet_interpolate e w p = Inr (h, w', p')"
  shows "p_interpolate p' = Some h"
  using assms
  by (auto simp: pdet_interpolate_def split: option.splits sum.splits artifact.splits if_splits)

lemma interpolate_memo:
  assumes "interpolate e w d = Inr (g, w', d')"
  shows "self_interpolate d' = Some g"
  using assms
  by (auto simp: interpolate_def split: option.splits sum.splits artifact.splits if_splits)

lemma pdet_eval_again:
  assumes "pdet_eval e w p x = Inr (v, w', p')"
  shows "pdet_eval e w' p' x = Inr (v, w', p')"
proof -
  from assms obtain h where i: "pdet_interpolate e w p = Inr (h, w', p')" and v: "v = apply_sf h x"
    by (auto simp: pdet_eval_def split: sum.splits)
  from pdet_interpolate_memo[OF i] have "pdet_interpolate e w' p' = Inr (h, w', p')"
    by (simp add: pdet_interpolate_def)
  then show ?thesis by (simp add: pdet_eval_def v)
qed

lemma detectability_eval_again:
  assumes "detectability_eval e w d m1 m2 z = Inr (v, w', d')"
  shows "detectability_eval e w' d' m1 m2 z = Inr (v, w', d')"
proof -
  from assms obtain g where i: "interpolate e w d = Inr (g, w', d')"
    by (auto simp: detectability_eval_def Let_def split: sum.splits if_splits artifact.splits)
  from interpolate_memo[OF i] have "interpolate e w' d' = Inr (g, w', d')"
    by (simp add: interpolate_def)
  with assms i show ?thesis by (simp add: detectability_eval_def Let_def)
qed

text \<open>
  A cache file that holds a distribution is loaded like any other; the failure comes when
  \<open>eval\<close> uses the loaded object.
\<close>

lemma eval_on_a_loaded_distribution:
  assumes "interpolate e w d = Inr (HistDist h, w', d')"
  shows "detectability_eval e w d m1 m2 z
           = Inl (TypeError ''object of type rv_frozen has no len()'')"
  using assms by (simp add: detectability_eval_def)

text \<open>
  C7, as the claim states it, fails for an object whose \<open>has_pycbc\<close> is unset: its cache
  file exists, and \<open>interpolate()\<close> raises the assertion before it looks at the cache, so
  nothing is loaded.
\<close>

theorem interpolate_asserts_before_cache:
  "isfile demo_world
     (self_binfile (detectability_init demo_env demo_world (demo_args\<lparr>has_pycbc := False\<rparr>))) \<and>
   interpolate demo_env demo_world
     (detectability_init demo_env demo_world (demo_args\<lparr>has_pycbc := False\<rparr>))
     = Inl (AssertionError ''pycbc is needed'')"
  by (simp add: interpolate_def detectability_init_def Let_def demo_args_def demo_world_def
        isfile_def detectability_binfile_path_def default_args_def demo_env_def)

text \<open>
  C7, amended. When the cache file of a distribution exists, building the distribution
  loads it and leaves the world as it is: no Monte Carlo draw (the position in the random
  stream and the counter \<open>mc_calls\<close> are those of before). When the cache file of a
  detection grid exists and \<open>has_pycbc\<close> is set, building the interpolant loads it and
  leaves the world as it is: no per-point evaluation (the counter \<open>fn_calls\<close> is that of
  before). And \<open>eval\<close> called again with the same input on the object and the world the
  first call left gives the same output and changes nothing.
\<close>

theorem warm_cache_skips_build:
  "(files w (p_binfile p) = Some (HistDist h) \<and> p_interpolate p = None \<longrightarrow>
      pdet_interpolate e w p = Inr (h, w, p\<lparr>p_interpolate := Some h\<rparr>)) \<and>
   (files w (self_binfile d) = Some art \<and> self_interpolate d = None \<and>
    has_pycbc (args d) \<longrightarrow>
      interpolate e w d = Inr (art, w, d\<lparr>self_interpolate := Some art\<rparr>)) \<and>
   (pdet_eval e w1 p1 x = Inr (v, w2, p2) \<longrightarrow> pdet_eval e w2 p2 x = Inr (v, w2, p2)) \<and>
   (detectability_eval e w3 d3 m1 m2 z = Inr (u, w4, d4) \<longrightarrow>
      detectability_eval e w4 d4 m1 m2 z = Inr (u, w4, d4))"
proof (intro conjI impI)
  assume "files w (p_binfile p) = Some (HistDist h) \<and> p_interpolate p = None"
  then show "pdet_interpolate e w p = Inr (h, w, p\<lparr>p_interpolate := Some h\<rparr>)"
    by (simp add: pdet_interpolate_hit)
next
  assume "files w (self_binfile d) = Some art \<and> self_interpolate d = None \<and>
    has_pycbc (args d)"
  then show "interpolate e w d = Inr (art, w, d\<lparr>self_interpolate := Some art\<rparr>)"
    by (simp add: interpolate_hit)
next
  assume "pdet_eval e w1 p1 x = Inr (v, w2, p2)"
  then show "pdet_eval e w2 p2 x = Inr (v, w2, p2)"
    by (rule pdet_eval_again)
next
  assume "detectability_eval e w3 d3 m1 m2 z = Inr (u, w4, d4)"
  then show "detectability_eval e w4 d4 m1 m2 z = Inr (u, w4, d4)"
    by (rule detectability_eval_again)
qed

lemma demo_eval:
  "detectability_eval demo_env demo_world (detectability_init demo_env demo_world demo_args)
      (Scalar 50) (Scalar 50) (Scalar 1)
   = Inr (Scalar (74 / 99), demo_world,
       (detectability_init demo_env demo_world demo_args)\<lparr>self_interpolate := Some (GridInterpolant demo_interpolant)\<rparr>)"
  by (simp add: detectability_eval_def interpolate_def detectability_init_def Let_def demo_args_def
        demo_world_def isfile_def detectability_binfile_path_def default_args_def demo_env_def
        rgi_call3_def demo_interpolant_def lerp_def cell_index_def demote_def)


lemma demo_pdet_eval:
  "pdet_eval demo_env demo_world (pdet_init ''detprob_data'' (Some ''pw.pkl'') 10 2) (Scalar (3 / 4))
   = Inr (Scalar (3 / 8), demo_world,
       (pdet_init ''detprob_data'' (Some ''pw.pkl'') 10 2)\<lparr>p_interpolate := Some demo_hist\<rparr>)"
  by (simp add: pdet_eval_def pdet_interpolate_def pdet_init_def pdet_binfile_path_def
        demo_world_def isfile_def demo_hist_def rv_histogram_sf_def hist_cdf_def hcdf_def)

theorem warm_cache_skips_build_witness:
  "files demo_world (p_binfile (pdet_init ''detprob_data'' (Some ''pw.pkl'') 10 2))
     = Some (HistDist demo_hist) \<and>
   p_interpolate (pdet_init ''detprob_data'' (Some ''pw.pkl'') 10 2) = None \<and>
   pdet_interpolate demo_env demo_world (pdet_init ''detprob_data'' (Some ''pw.pkl'') 10 2)
     = Inr (demo_hist, demo_world,
         (pdet_init ''detprob_data'' (Some ''pw.pkl'') 10 2)\<lparr>p_interpolate := Some demo_hist\<rparr>) \<and>
   files demo_world (self_binfile (detectability_init demo_env demo_world demo_args))
     = Some (GridInterpolant demo_interpolant) \<and>
   self_interpolate (detectability_init demo_env demo_world demo_args) = None \<and>
   has_pycbc (args (detectability_init demo_env demo_world demo_args)) \<and>
   interpolate demo_env demo_world (detectability_init demo_env demo_world demo_args)
     = Inr (GridInterpolant demo_interpolant, demo_world,
         (detectability_init demo_env demo_world demo_args)
           \<lparr>self_interpolate := Some (GridInterpolant demo_interpolant)\<rparr>) \<and>
   pdet_eval demo_env demo_world (pdet_init ''detprob_data'' (Some ''pw.pkl'') 10 2)
       (Scalar (3 / 4))
     = Inr (Scalar (3 / 8), demo_world,
         (pdet_init ''detprob_data'' (Some ''pw.pkl'') 10 2)\<lparr>p_interpolate := Some demo_hist\<rparr>) \<and>
   pdet_eval demo_env demo_world
       ((pdet_init ''detprob_data'' (Some ''pw.pkl'') 10 2)\<lparr>p_interpolate := Some demo_hist\<rparr>)
       (Scalar (3 / 4))
     = Inr (Scalar (3 / 8), demo_world,
         (pdet_init ''detprob_data'' (Some ''pw.pkl'') 10 2)\<lparr>p_interpolate := Some demo_hist\<rparr>) \<and>
   detectability_eval demo_env demo_world (detectability_init demo_env demo_world demo_args)
       (Scalar 50) (Scalar 50) (Scalar 1)
     = Inr (Scalar (74 / 99), demo_world,
         (detectability_init demo_env demo_world demo_args)
           \<lparr>self_interpolate := Some (GridInterpolant demo_interpolant)\<rparr>) \<and>
   detectability_eval demo_env demo_world
       ((detectability_init demo_env demo_world demo_args)
          \<lparr>self_interpolate := Some (GridInterpolant demo_interpolant)\<rparr>)
       (Scalar 50) (Scalar 50) (Scalar 1)
     = Inr (Scalar (74 / 99), demo_world,
         (detectability_init demo_env demo_world demo_args)
           \<lparr>self_interpolate := Some (GridInterpolant demo_interpolant)\<rparr>)"
proof -
  let ?p = "pdet_init ''detprob_data'' (Some ''pw.pkl'') 10 2"
  let ?d = "detectability_init demo_env demo_world demo_args"
  have h1: "files demo_world (p_binfile ?p) = Some (HistDist demo_hist) \<and> p_interpolate ?p = None"
    by (simp add: pdet_init_def pdet_binfile_path_def demo_world_def)
  have h2: "files demo_world (self_binfile ?d) = Some (GridInterpolant demo_interpolant) \<and>
            self_interpolate ?d = None \<and> has_pycbc (args ?d)"
    by (simp add: detectability_init_def Let_def demo_args_def demo_world_def
          detectability_binfile_path_def default_args_def demo_env_def)
  note t = warm_cache_skips_build [of demo_world ?p demo_hist demo_env ?d
      "GridInterpolant demo_interpolant"
      demo_world ?p "Scalar (3 / 4)" "Scalar (3 / 8)" demo_world
      "?p\<lparr>p_interpolate := Some demo_hist\<rparr>" demo_world ?d "Scalar 50" "Scalar 50" "Scalar 1"
      "Scalar (74 / 99)" demo_world
      "?d\<lparr>self_interpolate := Some (GridInterpolant demo_interpolant)\<rparr>"]
  from t h1 have c1: "pdet_interpolate demo_env demo_world ?p
     = Inr (demo_hist, demo_world, ?p\<lparr>p_interpolate := Some demo_hist\<rparr>)" by blast
  from t h2 have c2: "interpolate demo_env demo_world ?d
     = Inr (GridInterpolant demo_interpolant, demo_world, ?d\<lparr>self_interpolate := Some (GridInterpolant demo_interpolant)\<rparr>)"
    by blast
  from t demo_pdet_eval have c3: "pdet_eval demo_env demo_world
       (?p\<lparr>p_interpolate := Some demo_hist\<rparr>) (Scalar (3 / 4))
     = Inr (Scalar (3 / 8), demo_world, ?p\<lparr>p_interpolate := Some demo_hist\<rparr>)" by blast
  from t demo_eval have c4: "detectability_eval demo_env demo_world
       (?d\<lparr>self_interpolate := Some (GridInterpolant demo_interpolant)\<rparr>) (Scalar 50) (Scalar 50) (Scalar 1)
     = Inr (Scalar (74 / 99), demo_world, ?d\<lparr>self_interpolate := Some (GridInterpolant demo_interpolant)\<rparr>)"
    by blast
  show ?thesis
    using h1 h2 c1 c2 c3 c4 demo_pdet_eval demo_eval by (simp only: simp_thms)
qed

section \<open>A missing waveform provider\<close>

lemma snr_loop_unavailable:
  "\<not> has_pycbc (args d) \<Longrightarrow> pts \<noteq> [] \<Longrightarrow>
     snr_loop e d pts = Inl (AssertionError ''pycbc is needed'')"
  by (cases pts) (auto simp: Let_def)

lemma snr_unavailable:
  assumes "\<not> has_pycbc (args d)" and "promote m1 \<noteq> []" and "promote m2 \<noteq> []"
    and "promote z \<noteq> []"
  shows "snr e d m1 m2 z = Inl (AssertionError ''pycbc is needed'')"
proof -
  have "zip (promote m1) (zip (promote m2) (promote z)) \<noteq> []"
    using assms(2-4) by (cases "promote m1"; cases "promote m2"; cases "promote z") simp_all
  then show ?thesis
    using assms(1) by (simp add: snr_def snr_loop_unavailable)
qed

text \<open>
  The operations that carry the assertion: when \<open>has_pycbc\<close> is unset, \<open>snr\<close> (on
  inputs that are not empty), \<open>snrinterpolant\<close>, \<open>interpolate\<close>, \<open>eval\<close> and
  \<open>_compute\<close> on the constructed object raise \<open>pycbc is needed\<close>, in whatever state the
  world is.
\<close>

lemma guarded_operations_raise_the_assertion:
  assumes "\<not> has_pycbc a"
  shows "snr e (detectability_init e w a) (Scalar m1) (Scalar m2) (Scalar z)
           = Inl (AssertionError ''pycbc is needed'') \<and>
         snrinterpolant e w' (detectability_init e w a) = Inl (AssertionError ''pycbc is needed'') \<and>
         interpolate e w' (detectability_init e w a) = Inl (AssertionError ''pycbc is needed'') \<and>
         detectability_eval e w' (detectability_init e w a) v1 v2 v3
           = Inl (AssertionError ''pycbc is needed'') \<and>
         private_compute e w' (detectability_init e w a) data
           = Inl (AssertionError ''pycbc is needed'')"
proof -
  let ?d = "detectability_init e w a"
  have ar: "args ?d = a" and s: "self_snrinterpolant ?d = None" and i: "self_interpolate ?d = None"
    by (simp_all add: detectability_init_def Let_def)
  have n: "\<not> has_pycbc (args ?d)" using assms ar by simp
  have c1: "snr e ?d (Scalar m1) (Scalar m2) (Scalar z) = Inl (AssertionError ''pycbc is needed'')"
    using snr_unavailable[OF n] by simp
  have c2: "snrinterpolant e w' ?d = Inl (AssertionError ''pycbc is needed'')"
    using n s by (simp add: snrinterpolant_def)
  have c3: "interpolate e w' ?d = Inl (AssertionError ''pycbc is needed'')"
    using n i by (simp add: interpolate_def)
  have c4: "detectability_eval e w' ?d v1 v2 v3 = Inl (AssertionError ''pycbc is needed'')"
    by (simp add: detectability_eval_def c3)
  have c5: "private_compute e w' ?d data = Inl (AssertionError ''pycbc is needed'')"
    by (cases data) (simp add: private_compute_def c2)
  show ?thesis
    using c1 c2 c3 c4 c5 by (intro conjI)
qed

text \<open>
  C9. The claim says that, when the waveform provider is unavailable, every operation that
  attempts an SNR computation fails with the explicit condition \<open>pycbc is needed\<close>. The
  code does not for \<open>_snr\<close>, which has no assertion, while its sibling \<open>snr\<close> has one.
  In a module where the import of pycbc failed, the module function \<open>snr_pickable\<close>
  constructs a default object, whose \<open>has_pycbc\<close> is unset, and its call of \<open>_snr\<close>
  raises NameError, where \<open>snr\<close> on the same object raises the assertion. On an object
  constructed with \<open>has_pycbc=False\<close> in a module where pycbc is there, \<open>_snr\<close> does not
  fail at all and computes the SNR.
\<close>

theorem snr_pickable_raises_NameError:
  "(let e' = e\<lparr>pycbc := None\<rparr>;
        d = detectability_init e' w (default_args e')
    in \<not> has_pycbc (args d) \<and>
       snr_pickable e' w (m1z, m2z) = Inl (NameError ''pycbc'') \<and>
       private_snr e' d (m1z, m2z) = Inl (NameError ''pycbc'') \<and>
       snr e' d (Scalar m1) (Scalar m2) (Scalar z) = Inl (AssertionError ''pycbc is needed'')) \<and>
   \<not> has_pycbc (args (detectability_init demo_env demo_world (demo_args\<lparr>has_pycbc := False\<rparr>))) \<and>
   private_snr demo_env
     (detectability_init demo_env demo_world (demo_args\<lparr>has_pycbc := False\<rparr>)) (30, 30)
     = Inr 60"
proof -
  let ?e = "e\<lparr>pycbc := None\<rparr>"
  let ?d = "detectability_init ?e w (default_args ?e)"
  have n: "\<not> has_pycbc (args ?d)"
    by (simp add: detectability_init_def Let_def default_args_def)
  have a: "snr_pickable ?e w (m1z, m2z) = Inl (NameError ''pycbc'')"
    by (simp add: snr_pickable_def private_snr_def)
  have b: "private_snr ?e ?d (m1z, m2z) = Inl (NameError ''pycbc'')"
    by (simp add: private_snr_def)
  have c: "snr ?e ?d (Scalar m1) (Scalar m2) (Scalar z) = Inl (AssertionError ''pycbc is needed'')"
    using snr_unavailable[OF n] by simp
  have d: "\<not> has_pycbc (args (detectability_init demo_env demo_world
                (demo_args\<lparr>has_pycbc := False\<rparr>)))"
    by (simp add: detectability_init_def Let_def)
  have f: "private_snr demo_env
     (detectability_init demo_env demo_world (demo_args\<lparr>has_pycbc := False\<rparr>)) (30, 30)
     = Inr 60"
    by (simp add: private_snr_def detectability_init_def Let_def demo_args_def demo_env_def
          default_args_def)
  show ?thesis
    unfolding Let_def using n a b c d f by (intro conjI)
qed

section \<open>The cache file name as a fingerprint\<close>

lemma digit_cases: "d < 10 \<Longrightarrow> d \<in> {0, 1, 2, 3, 4, 5, 6, 7, 8, 9 :: nat}"
  by auto

lemma digit_char_inj: "d < 10 \<Longrightarrow> d' < 10 \<Longrightarrow> digit_char d = digit_char d' \<Longrightarrow> d = d'"
  using digit_cases[of d] digit_cases[of d'] by (auto simp: digit_char_def)

lemma digit_char_plain:
  "d < 10 \<Longrightarrow> digit_char d \<noteq> CHR ''_'' \<and> digit_char d \<noteq> CHR ''-''"
  using digit_cases[of d] by (auto simp: digit_char_def)

lemma str_nat_nonempty: "str_nat n \<noteq> []"
  by (subst str_nat.simps) simp

lemma str_nat_digits: "c \<in> set (str_nat n) \<Longrightarrow> c \<noteq> CHR ''_'' \<and> c \<noteq> CHR ''-''"
proof (induction n rule: str_nat.induct)
  case (1 n)
  show ?case
  proof (cases "n < 10")
    case True
    with "1.prems" have "c = digit_char n" by (subst (asm) str_nat.simps) simp
    then show ?thesis using digit_char_plain[OF True] by simp
  next
    case False
    with "1.prems" have "c \<in> set (str_nat (n div 10)) \<or> c = digit_char (n mod 10)"
      by (subst (asm) str_nat.simps) auto
    then show ?thesis
      using "1.IH"[OF False] digit_char_plain[of "n mod 10"] by auto
  qed
qed

lemma str_nat_inj: "str_nat n = str_nat m \<Longrightarrow> n = m"
proof (induction n arbitrary: m rule: str_nat.induct)
  case (1 n)
  have un: "str_nat n = (if n < 10 then [digit_char n]
              else str_nat (n div 10) @ [digit_char (n mod 10)])"
    by (rule str_nat.simps)
  have um: "str_nat m = (if m < 10 then [digit_char m]
              else str_nat (m div 10) @ [digit_char (m mod 10)])"
    by (rule str_nat.simps)
  show ?case
  proof (cases "n < 10")
    case True
    show ?thesis
    proof (cases "m < 10")
      case m: True
      with True "1.prems" un um show ?thesis by (simp add: digit_char_inj)
    next
      case m: False
      with True "1.prems" un um have "str_nat (m div 10) = []" by simp
      then show ?thesis using str_nat_nonempty by simp
    qed
  next
    case False
    show ?thesis
    proof (cases "m < 10")
      case m: True
      with False "1.prems" un um have "str_nat (n div 10) = []" by simp
      then show ?thesis using str_nat_nonempty by simp
    next
      case m: False
      with False "1.prems" un um
      have e: "str_nat (n div 10) = str_nat (m div 10)"
        and d: "digit_char (n mod 10) = digit_char (m mod 10)" by simp_all
      from "1.IH"[OF False e] have q: "n div 10 = m div 10" .
      from d have r: "n mod 10 = m mod 10" by (intro digit_char_inj) simp_all
      from q r show ?thesis by (metis div_mult_mod_eq)
    qed
  qed
qed

lemma str_int_plain: "CHR ''_'' \<notin> set (str_int i)"
  using str_nat_digits by (auto simp: str_int_def)

lemma str_int_inj: "str_int i = str_int j \<Longrightarrow> i = j"
proof -
  assume a: "str_int i = str_int j"
  have hd_nat: "\<And>n. hd (str_nat n) \<noteq> CHR ''-''"
    using str_nat_digits str_nat_nonempty by (metis hd_in_set)
  show ?thesis
  proof (cases "i < 0"; cases "j < 0")
    assume "i < 0" "j < 0"
    with a have "nat (- i) = nat (- j)" by (simp add: str_int_def str_nat_inj)
    with \<open>i < 0\<close> \<open>j < 0\<close> show ?thesis by simp
  next
    assume "i < 0" "\<not> j < 0"
    with a have "CHR ''-'' # str_nat (nat (- i)) = str_nat (nat j)" by (simp add: str_int_def)
    then have "hd (str_nat (nat j)) = CHR ''-''" by (metis list.sel(1))
    then show ?thesis using hd_nat by simp
  next
    assume "\<not> i < 0" "j < 0"
    with a have "str_nat (nat i) = CHR ''-'' # str_nat (nat (- j))" by (simp add: str_int_def)
    then have "hd (str_nat (nat i)) = CHR ''-''" by (metis list.sel(1))
    then show ?thesis using hd_nat by simp
  next
    assume "\<not> i < 0" "\<not> j < 0"
    with a have "nat i = nat j" by (simp add: str_int_def str_nat_inj)
    with \<open>\<not> i < 0\<close> \<open>\<not> j < 0\<close> show ?thesis by simp
  qed
qed

lemma split_at_underscore:
  "CHR ''_'' \<notin> set u \<Longrightarrow> CHR ''_'' \<notin> set u' \<Longrightarrow> u @ CHR ''_'' # r = u' @ CHR ''_'' # r'
     \<Longrightarrow> u = u' \<and> r = r'"
proof (induction u arbitrary: u')
  case Nil
  then show ?case by (cases u') auto
next
  case (Cons c u)
  then show ?case by (cases u') auto
qed

lemma name_value_join_Cons:
  "name_value_join ((n, v) # rest) =
     (if rest = [] then n @ ''_'' @ v else n @ ''_'' @ v @ ''_'' @ name_value_join rest)"
  by (cases rest) (simp_all add: name_value_join_def)

lemma name_value_join_inj:
  assumes "map fst nvs = map fst nvs'"
    and "\<forall>v\<in>set (map snd nvs). CHR ''_'' \<notin> set v"
    and "\<forall>v\<in>set (map snd nvs'). CHR ''_'' \<notin> set v"
    and "name_value_join nvs @ sfx = name_value_join nvs' @ sfx"
  shows "nvs = nvs'"
  using assms
proof (induction nvs arbitrary: nvs')
  case Nil
  then show ?case by simp
next
  case (Cons nv rest)
  obtain n v where nv: "nv = (n, v)" by (cases nv)
  from Cons.prems(1) nv obtain v' rest' where n': "nvs' = (n, v') # rest'"
    and fs: "map fst rest = map fst rest'"
    by (cases nvs') auto
  have pv: "CHR ''_'' \<notin> set v" "CHR ''_'' \<notin> set v'"
    using Cons.prems(2,3) nv n' by simp_all
  show ?case
  proof (cases "rest = []")
    case True
    then have "rest' = []" using fs by simp
    with True Cons.prems(4) nv n' show ?thesis
      by (simp add: name_value_join_Cons)
  next
    case False
    then have f': "rest' \<noteq> []" using fs by auto
    from Cons.prems(4) have
      "v @ CHR ''_'' # (name_value_join rest @ sfx) = v' @ CHR ''_'' # (name_value_join rest' @ sfx)"
      using False f' by (simp add: nv n' name_value_join_Cons)
    from split_at_underscore[OF pv this]
    have v: "v = v'" and j: "name_value_join rest @ sfx = name_value_join rest' @ sfx" by simp_all
    have "rest = rest'"
      using Cons.IH[OF fs _ _ j] Cons.prems(2,3) n' by simp
    with v nv n' show ?thesis by simp
  qed
qed

text \<open>
  C1, as the claim states it, fails: the values are joined with underscores and nothing
  is escaped, so two configurations that differ in approximant and in psd can have one
  file name.
\<close>

theorem binfile_collision_on_underscores:
  "approximant ((default_args demo_env)\<lparr>approximant := ''A_psd_B'', psd := ''C''\<rparr>)
     \<noteq> approximant ((default_args demo_env)\<lparr>approximant := ''A'', psd := ''B_psd_C''\<rparr>) \<and>
   psd ((default_args demo_env)\<lparr>approximant := ''A_psd_B'', psd := ''C''\<rparr>)
     \<noteq> psd ((default_args demo_env)\<lparr>approximant := ''A'', psd := ''B_psd_C''\<rparr>) \<and>
   detectability_binfile_path demo_env
       ((default_args demo_env)\<lparr>approximant := ''A_psd_B'', psd := ''C''\<rparr>)
     = detectability_binfile_path demo_env
         ((default_args demo_env)\<lparr>approximant := ''A'', psd := ''B_psd_C''\<rparr>)"
  by (simp add: detectability_binfile_path_def detectability_default_binfile_def
        name_value_join_def default_args_def)

text \<open>
  The file name of the detection grid does not hold \<open>mcn\<close> and \<open>mcbins\<close>, while the
  file name of the distribution does.
\<close>

lemma binfile_ignores_mcn_mcbins:
  "detectability_binfile_path e (a\<lparr>mcn := n, mcbins := b\<rparr>) = detectability_binfile_path e a"
  by (simp add: detectability_binfile_path_def detectability_default_binfile_def
        split: option.splits)

lemma pdet_binfile_has_mcn_mcbins:
  "pdet_default_binfile n b = ''pdet_mcn_'' @ str_int n @ ''_mcbins_'' @ str_int b @ ''.pkl''"
  by (simp add: pdet_default_binfile_def name_value_join_def)

text \<open>
  C1, amended. For two configurations with no explicit \<open>binfile\<close> and one directory,
  whose approximant and psd names hold no underscore (the text Python prints for a float
  holds none): if they differ in approximant, in psd, in the printed value of \<open>flow\<close>,
  \<open>deltaf\<close>, \<open>snrthreshold\<close>, \<open>massmin\<close>, \<open>massmax\<close>, \<open>zmin\<close> or \<open>zmax\<close>, or in
  \<open>mc1d\<close>, their cache file names differ.
\<close>

theorem binfile_separates_keyed_parameters:
  assumes "binfile a = None" and "binfile b = None" and "directory a = directory b"
    and "CHR ''_'' \<notin> set (approximant a)" and "CHR ''_'' \<notin> set (psd a)"
    and "CHR ''_'' \<notin> set (approximant b)" and "CHR ''_'' \<notin> set (psd b)"
    and "\<forall>x. CHR ''_'' \<notin> set (str_float e x)"
    and "approximant a \<noteq> approximant b \<or> psd a \<noteq> psd b \<or>
         str_float e (flow a) \<noteq> str_float e (flow b) \<or>
         str_float e (deltaf a) \<noteq> str_float e (deltaf b) \<or>
         str_float e (snrthreshold a) \<noteq> str_float e (snrthreshold b) \<or>
         str_float e (massmin a) \<noteq> str_float e (massmin b) \<or>
         str_float e (massmax a) \<noteq> str_float e (massmax b) \<or>
         str_float e (zmin a) \<noteq> str_float e (zmin b) \<or>
         str_float e (zmax a) \<noteq> str_float e (zmax b) \<or>
         mc1d a \<noteq> mc1d b"
  shows "detectability_binfile_path e a \<noteq> detectability_binfile_path e b"
proof
  assume eq: "detectability_binfile_path e a = detectability_binfile_path e b"
  let ?nvs = "\<lambda>a. [(''approximant'', approximant a),
        (''psd'', psd a),
        (''flow'', str_float e (flow a)),
        (''deltaf'', str_float e (deltaf a)),
        (''snrthreshold'', str_float e (snrthreshold a)),
        (''massmin'', str_float e (massmin a)),
        (''massmax'', str_float e (massmax a)),
        (''zmin'', str_float e (zmin a)),
        (''zmax'', str_float e (zmax a)),
        (''mc1d'', str_int (mc1d a))]"
  from eq assms(1-3) have
    j: "name_value_join (?nvs a) @ ''.pkl'' = name_value_join (?nvs b) @ ''.pkl''"
    by (simp add: detectability_binfile_path_def detectability_default_binfile_def)
  have f: "map fst (?nvs a) = map fst (?nvs b)" by simp
  have pa: "\<forall>v\<in>set (map snd (?nvs a)). CHR ''_'' \<notin> set v"
    using assms(4,5,8) str_int_plain by simp
  have pb: "\<forall>v\<in>set (map snd (?nvs b)). CHR ''_'' \<notin> set v"
    using assms(6,7,8) str_int_plain by simp
  have "?nvs a = ?nvs b"
    using f pa pb j by (rule name_value_join_inj)
  then have "approximant a = approximant b \<and> psd a = psd b \<and>
         str_float e (flow a) = str_float e (flow b) \<and>
         str_float e (deltaf a) = str_float e (deltaf b) \<and>
         str_float e (snrthreshold a) = str_float e (snrthreshold b) \<and>
         str_float e (massmin a) = str_float e (massmin b) \<and>
         str_float e (massmax a) = str_float e (massmax b) \<and>
         str_float e (zmin a) = str_float e (zmin b) \<and>
         str_float e (zmax a) = str_float e (zmax b) \<and>
         str_int (mc1d a) = str_int (mc1d b)"
    by simp
  with assms(9) show False using str_int_inj by blast
qed

theorem binfile_separates_keyed_parameters_witness:
  "binfile (default_args demo_env) = None \<and>
   binfile ((default_args demo_env)\<lparr>mc1d := 100\<rparr>) = None \<and>
   directory (default_args demo_env) = directory ((default_args demo_env)\<lparr>mc1d := 100\<rparr>) \<and>
   CHR ''_'' \<notin> set (approximant (default_args demo_env)) \<and>
   CHR ''_'' \<notin> set (psd (default_args demo_env)) \<and>
   mc1d (default_args demo_env) \<noteq> mc1d ((default_args demo_env)\<lparr>mc1d := 100\<rparr>) \<and>
   detectability_binfile_path demo_env (default_args demo_env)
     \<noteq> detectability_binfile_path demo_env ((default_args demo_env)\<lparr>mc1d := 100\<rparr>)"
proof -
  let ?a = "default_args demo_env" and ?b = "(default_args demo_env)\<lparr>mc1d := 100\<rparr>"
  have h: "binfile ?a = None" "binfile ?b = None" "directory ?a = directory ?b"
      "CHR ''_'' \<notin> set (approximant ?a)" "CHR ''_'' \<notin> set (psd ?a)"
      "CHR ''_'' \<notin> set (approximant ?b)" "CHR ''_'' \<notin> set (psd ?b)"
    by (simp_all add: default_args_def)
  have f: "\<forall>x. CHR ''_'' \<notin> set (str_float demo_env x)"
    by (simp add: demo_env_def)
  have m: "mc1d ?a \<noteq> mc1d ?b" by (simp add: default_args_def)
  show ?thesis
    using binfile_separates_keyed_parameters [OF h f, of ] h m by simp
qed

section \<open>Queries outside the grid\<close>

lemma RegularGridInterpolator_fields:
  assumes "RegularGridInterpolator ps vs be fv = Inr itp"
  shows "points itp = ps \<and> values' itp = vs \<and> bounds_error itp = be \<and> fill_value itp = fv \<and>
         list_all (sorted_wrt (<)) ps"
  using assms by (auto simp: RegularGridInterpolator_def split: if_splits)

lemma rgi_call3_extrapolating:
  assumes "RegularGridInterpolator [g1, g2, g3] vs False None = Inr itp"
  shows "rgi_call3 itp xi =
           Inr (map (\<lambda>(x, y, z). lerp g1 (\<lambda>i. lerp g2 (\<lambda>j. lerp g3 (\<lambda>k. vs ! i ! j ! k) z) y) x) xi)"
  using RegularGridInterpolator_fields[OF assms] by (simp add: rgi_call3_def)

lemma cell_index_below:
  assumes "sorted_wrt (<) g" and "x \<le> hd g" and "g \<noteq> []"
  shows "cell_index g x = 0"
proof -
  have "\<forall>v\<in>set g. \<not> v < x"
  proof
    fix v assume "v \<in> set g"
    then have "hd g \<le> v" using assms(1,3) by (cases g) auto
    then show "\<not> v < x" using assms(2) by simp
  qed
  then have "filter (\<lambda>v. v < x) g = []" by (simp add: filter_empty_conv)
  then show ?thesis by (simp add: cell_index_def)
qed

lemma cell_index_above:
  assumes "sorted_wrt (<) g" and "last g < x" and "2 \<le> length g"
  shows "cell_index g x = length g - 2"
proof -
  have ne: "g \<noteq> []" using assms(3) by auto
  have "\<forall>v\<in>set g. v < x"
  proof
    fix v assume "v \<in> set g"
    then obtain i where i: "i < length g" "v = g ! i" by (auto simp: in_set_conv_nth)
    have "g ! i \<le> g ! (length g - 1)"
    proof (cases "i = length g - 1")
      case True then show ?thesis by simp
    next
      case False
      then have "i < length g - 1" using i by simp
      then have "g ! i < g ! (length g - 1)"
        using assms(1) i ne by (simp add: sorted_wrt_nth_less)
      then show ?thesis by simp
    qed
    then show "v < x" using assms(2) i ne by (simp add: last_conv_nth)
  qed
  then have "filter (\<lambda>v. v < x) g = g" by (simp add: filter_id_conv)
  then show ?thesis using assms(3) by (simp add: cell_index_def)
qed

lemma lerp_line: "lerp g f x =
   f (cell_index g x) + (x - g ! cell_index g x) *
     ((f (cell_index g x + 1) - f (cell_index g x)) / (g ! (cell_index g x + 1) - g ! cell_index g x))"
  by (simp add: lerp_def Let_def algebra_simps diff_divide_distrib)

lemma lerp_below:
  assumes "sorted_wrt (<) g" and "2 \<le> length g" and "x < hd g"
  shows "lerp g f x = f 0 + (x - g ! 0) * ((f 1 - f 0) / (g ! 1 - g ! 0))"
proof -
  have "g \<noteq> []" using assms(2) by auto
  then have "cell_index g x = 0" using cell_index_below[OF assms(1)] assms(3) by simp
  then show ?thesis by (simp add: lerp_line)
qed

lemma lerp_above:
  assumes "sorted_wrt (<) g" and "2 \<le> length g" and "last g < x"
  shows "lerp g f x = f (length g - 2) + (x - g ! (length g - 2)) *
           ((f (length g - 1) - f (length g - 2)) / (g ! (length g - 1) - g ! (length g - 2)))"
proof -
  have c: "cell_index g x = length g - 2" using cell_index_above[OF assms(1,3,2)] .
  have "length g - 2 + 1 = length g - 1" using assms(2) by simp
  then show ?thesis by (simp add: lerp_line c)
qed

text \<open>
  What the cache-miss branch stores is an interpolant constructed as line 411 does, with
  \<open>bounds_error\<close> unset and no fill value.
\<close>

lemma detectability_build_artifact:
  assumes "detectability_build e w d = Inr (w', d')"
  shows "\<exists>g1 g2 g3 vs itp. RegularGridInterpolator [g1, g2, g3] vs False None = Inr itp \<and>
           files w' (self_binfile d) = Some (GridInterpolant itp)"
  using assms
  by (auto simp: detectability_build_def Let_def pickle_dump_def
        split: sum.splits prod.splits if_splits) blast+


lemma demo_interpolate:
  "interpolate demo_env demo_world (detectability_init demo_env demo_world demo_args)
     = Inr (GridInterpolant demo_interpolant, demo_world,
         (detectability_init demo_env demo_world demo_args)
           \<lparr>self_interpolate := Some (GridInterpolant demo_interpolant)\<rparr>)"
  by (simp add: interpolate_def detectability_init_def Let_def demo_args_def demo_world_def
        isfile_def detectability_binfile_path_def default_args_def demo_env_def)

lemma demo_constructed:
  "RegularGridInterpolator [[1, 100], [1, 100], [0, 2]] [[[1, 0], [1, 0]], [[1, 1], [1, 1]]]
     False None = Inr demo_interpolant"
  by (simp add: RegularGridInterpolator_def demo_interpolant_def)

text \<open>
  C8. On an object whose interpolant is one constructed as the code constructs it
  (\<open>bounds_error=False, fill_value=None\<close>), over axes of at least two knots, \<open>eval\<close>
  returns a number for every query point, also for negative masses and for a redshift
  outside the grid, and a vector of numbers for a batch of points: it never raises for a
  point out of bounds. The number is the multilinear form of the cell the point belongs
  to, and along each axis a coordinate below the first knot, or above the last, is on the
  line through the two knots at that end: the boundary cell is extrapolated linearly.
\<close>

theorem eval_extrapolates_without_raising:
  assumes "interpolate e w d = Inr (GridInterpolant itp, w', d')"
    and "RegularGridInterpolator [g1, g2, g3] vs False None = Inr itp"
    and "2 \<le> length g1" and "2 \<le> length g2" and "2 \<le> length g3"
  shows "detectability_eval e w d (Scalar m1) (Scalar m2) (Scalar z)
           = Inr (Scalar (lerp g1 (\<lambda>i. lerp g2 (\<lambda>j. lerp g3 (\<lambda>k. vs ! i ! j ! k) z) m2) m1),
                  w', d') \<and>
         (length xs = length ys \<and> length ys = length zs \<and> 1 < length xs \<longrightarrow>
            detectability_eval e w d (Vector xs) (Vector ys) (Vector zs)
              = Inr (Vector (map (\<lambda>(x, y, z).
                       lerp g1 (\<lambda>i. lerp g2 (\<lambda>j. lerp g3 (\<lambda>k. vs ! i ! j ! k) z) y) x)
                       (zip xs (zip ys zs))), w', d')) \<and>
         (\<forall>g\<in>set [g1, g2, g3]. \<forall>f x.
            (x < hd g \<longrightarrow>
               lerp g f x = f 0 + (x - g ! 0) * ((f 1 - f 0) / (g ! 1 - g ! 0))) \<and>
            (last g < x \<longrightarrow>
               lerp g f x = f (length g - 2) + (x - g ! (length g - 2)) *
                 ((f (length g - 1) - f (length g - 2))
                    / (g ! (length g - 1) - g ! (length g - 2)))))"
proof (intro conjI)
  note c = rgi_call3_extrapolating[OF assms(2)]
  show "detectability_eval e w d (Scalar m1) (Scalar m2) (Scalar z)
           = Inr (Scalar (lerp g1 (\<lambda>i. lerp g2 (\<lambda>j. lerp g3 (\<lambda>k. vs ! i ! j ! k) z) m2) m1),
                  w', d')"
    by (simp add: detectability_eval_def assms(1) c demote_def)
  show "length xs = length ys \<and> length ys = length zs \<and> 1 < length xs \<longrightarrow>
            detectability_eval e w d (Vector xs) (Vector ys) (Vector zs)
              = Inr (Vector (map (\<lambda>(x, y, z).
                       lerp g1 (\<lambda>i. lerp g2 (\<lambda>j. lerp g3 (\<lambda>k. vs ! i ! j ! k) z) y) x)
                       (zip xs (zip ys zs))), w', d')"
    by (simp add: detectability_eval_def assms(1) c demote_def)
  have s: "list_all (sorted_wrt (<)) [g1, g2, g3]"
    using RegularGridInterpolator_fields[OF assms(2)] by simp
  show "\<forall>g\<in>set [g1, g2, g3]. \<forall>f x.
            (x < hd g \<longrightarrow>
               lerp g f x = f 0 + (x - g ! 0) * ((f 1 - f 0) / (g ! 1 - g ! 0))) \<and>
            (last g < x \<longrightarrow>
               lerp g f x = f (length g - 2) + (x - g ! (length g - 2)) *
                 ((f (length g - 1) - f (length g - 2))
                    / (g ! (length g - 1) - g ! (length g - 2))))"
  proof (intro ballI impI allI conjI)
    fix g f x assume g: "g \<in> set [g1, g2, g3]"
    from g s have so: "sorted_wrt (<) g" by auto
    from g assms(3-5) have l: "2 \<le> length g" by auto
    { assume "x < hd g"
      then show "lerp g f x = f 0 + (x - g ! 0) * ((f 1 - f 0) / (g ! 1 - g ! 0))"
        using lerp_below[OF so l] by simp }
    { assume "last g < x"
      then show "lerp g f x = f (length g - 2) + (x - g ! (length g - 2)) *
                        ((f (length g - 1) - f (length g - 2))
                           / (g ! (length g - 1) - g ! (length g - 2)))"
        using lerp_above[OF so l] by simp }
  qed
qed

theorem eval_extrapolates_without_raising_witness:
  "interpolate demo_env demo_world (detectability_init demo_env demo_world demo_args)
     = Inr (GridInterpolant demo_interpolant, demo_world,
         (detectability_init demo_env demo_world demo_args)
           \<lparr>self_interpolate := Some (GridInterpolant demo_interpolant)\<rparr>) \<and>
   RegularGridInterpolator [[1, 100], [1, 100], [0, 2]] [[[1, 0], [1, 0]], [[1, 1], [1, 1]]]
     False None = Inr demo_interpolant \<and>
   detectability_eval demo_env demo_world (detectability_init demo_env demo_world demo_args)
       (Scalar (- 5)) (Scalar 500) (Scalar 9)
     = Inr (Scalar (- (83 / 22)), demo_world,
         (detectability_init demo_env demo_world demo_args)
           \<lparr>self_interpolate := Some (GridInterpolant demo_interpolant)\<rparr>) \<and>
   detectability_eval demo_env demo_world (detectability_init demo_env demo_world demo_args)
       (Vector [- 5, 50]) (Vector [500, 50]) (Vector [9, 1])
     = Inr (Vector [- (83 / 22), 74 / 99], demo_world,
         (detectability_init demo_env demo_world demo_args)
           \<lparr>self_interpolate := Some (GridInterpolant demo_interpolant)\<rparr>) \<and>
   lerp [1, 100] (\<lambda>i. real i) (- 5) = 0 + (- 5 - 1) * ((1 - 0) / (100 - 1)) \<and>
   lerp [0, 2] (\<lambda>i. real i) 9 = 0 + (9 - 0) * ((1 - 0) / (2 - 0))"
proof -
  let ?d = "detectability_init demo_env demo_world demo_args"
  have l: "2 \<le> length [1, 100 :: real]" "2 \<le> length [0, 2 :: real]" by simp_all
  note t = eval_extrapolates_without_raising [OF demo_interpolate demo_constructed l(1) l(1) l(2),
      where ?m1.0 = "- 5" and ?m2.0 = 500 and z = 9 and xs = "[- 5, 50]" and ys = "[500, 50]"
        and zs = "[9, 1]"]
  have a: "detectability_eval demo_env demo_world ?d (Scalar (- 5)) (Scalar 500) (Scalar 9)
     = Inr (Scalar (- (83 / 22)), demo_world, ?d\<lparr>self_interpolate := Some (GridInterpolant demo_interpolant)\<rparr>)"
    using t [THEN conjunct1] by (simp add: lerp_def cell_index_def)
  have b: "detectability_eval demo_env demo_world ?d
       (Vector [- 5, 50]) (Vector [500, 50]) (Vector [9, 1])
     = Inr (Vector [- (83 / 22), 74 / 99], demo_world,
         ?d\<lparr>self_interpolate := Some (GridInterpolant demo_interpolant)\<rparr>)"
    using t [THEN conjunct2, THEN conjunct1] by (simp add: lerp_def cell_index_def)
  have c: "lerp [1, 100] (\<lambda>i. real i) (- 5) = 0 + (- 5 - 1) * ((1 - 0) / (100 - 1))"
    using t [THEN conjunct2, THEN conjunct2] by simp
  have d: "lerp [0, 2] (\<lambda>i. real i) 9 = 0 + (9 - 0) * ((1 - 0) / (2 - 0))"
    using t [THEN conjunct2, THEN conjunct2] by simp
  show ?thesis
    using demo_interpolate demo_constructed a b c d by (simp only: simp_thms)
qed

section \<open>The survival function of the projection factor\<close>

lemma filter_le_takeWhile:
  "sorted_wrt (<) (es :: real list) \<Longrightarrow> filter (\<lambda>v. v \<le> x) es = takeWhile (\<lambda>v. v \<le> x) es"
proof (induction es)
  case Nil
  then show ?case by simp
next
  case (Cons a es)
  show ?case
  proof (cases "a \<le> x")
    case True
    then show ?thesis using Cons by simp
  next
    case False
    then have "\<forall>v\<in>set es. \<not> v \<le> x" using Cons.prems by auto
    then have "filter (\<lambda>v. v \<le> x) es = []" by (simp add: filter_empty_conv)
    then show ?thesis using False by simp
  qed
qed

lemma cell_of_interior:
  fixes es :: "real list"
  assumes "sorted_wrt (<) es" and "es \<noteq> []" and "hd es < x" and "x < last es"
  defines "i \<equiv> length (filter (\<lambda>v. v \<le> x) es) - 1"
  shows "i + 1 < length es \<and> es ! i \<le> x \<and> x < es ! (i + 1)"
proof -
  let ?P = "\<lambda>v. v \<le> x"
  let ?n = "length (takeWhile ?P es)"
  have i: "i = ?n - 1" using assms(1) by (simp add: i_def filter_le_takeWhile)
  have n1: "1 \<le> ?n" using assms(2,3) by (cases es) auto
  have nl: "?n < length es"
  proof (rule ccontr)
    assume "\<not> ?n < length es"
    then have "?n = length es" using length_takeWhile_le[of ?P es] by simp
    then have "takeWhile ?P es = es" by (metis takeWhile_eq_take take_all_iff order_refl)
    then have "\<forall>v\<in>set es. ?P v" by (metis set_takeWhileD)
    then have "last es \<le> x" using assms(2) by simp
    then show False using assms(4) by simp
  qed
  have a: "es ! (?n - 1) \<le> x"
  proof -
    have "?n - 1 < ?n" using n1 by simp
    then have "takeWhile ?P es ! (?n - 1) = es ! (?n - 1)" by (rule takeWhile_nth)
    moreover have "takeWhile ?P es ! (?n - 1) \<in> set (takeWhile ?P es)"
      using n1 by (intro nth_mem) simp
    ultimately show ?thesis by (metis set_takeWhileD)
  qed
  have b: "\<not> es ! ?n \<le> x" using nl by (rule nth_length_takeWhile)
  have "?n - 1 + 1 = ?n" using n1 by simp
  then show ?thesis using i nl a b by simp
qed

lemma length_filter_mono:
  "(\<And>v. P v \<Longrightarrow> Q v) \<Longrightarrow> length (filter P xs) \<le> length (filter Q xs)"
  by (induction xs) auto

lemma hcdf_mono: "k \<le> k' \<Longrightarrow> hcdf h k \<le> hcdf h k'"
proof -
  assume kk: "k \<le> k'"
  have "take k' (counts h) = take k (counts h) @ take (k' - k) (drop k (counts h))"
    using kk by (metis le_add_diff_inverse take_add)
  then have "sum_list (take k (counts h)) \<le> sum_list (take k' (counts h))" by simp
  then show ?thesis by (simp add: hcdf_def divide_right_mono)
qed

lemma hcdf_range: "0 \<le> hcdf h k \<and> hcdf h k \<le> 1"
proof -
  define S where "S = sum_list (take k (counts h))"
  define T where "T = sum_list (counts h)"
  have "counts h = take k (counts h) @ drop k (counts h)" by simp
  then have "sum_list (counts h) = sum_list (take k (counts h)) + sum_list (drop k (counts h))"
    by (metis sum_list_append)
  then have le: "S \<le> T" by (simp add: S_def T_def)
  have "0 \<le> real S / real T \<and> real S / real T \<le> 1"
  proof (cases "T = 0")
    case True
    then show ?thesis by simp
  next
    case False
    then show ?thesis using le by simp
  qed
  then show ?thesis by (simp add: hcdf_def S_def T_def)
qed

lemma hist_cdf_between:
  assumes "sorted_wrt (<) (edges h)" and "edges h \<noteq> []"
    and "hd (edges h) < x" and "x < last (edges h)"
  defines "i \<equiv> length (filter (\<lambda>v. v \<le> x) (edges h)) - 1"
  shows "hcdf h i \<le> hist_cdf h x \<and> hist_cdf h x \<le> hcdf h (i + 1)"
proof -
  have c: "i + 1 < length (edges h) \<and> edges h ! i \<le> x \<and> x < edges h ! (i + 1)"
    unfolding i_def using assms(1-4) by (rule cell_of_interior)
  define a where "a = edges h ! i"
  define wd where "wd = edges h ! (i + 1) - edges h ! i"
  define D where "D = hcdf h (i + 1) - hcdf h i"
  have D0: "0 \<le> D" using hcdf_mono[of i "i + 1" h] by (simp add: D_def)
  have w0: "0 < wd" using c by (simp add: wd_def)
  have xa: "0 \<le> x - a" "x - a \<le> wd" using c by (simp_all add: a_def wd_def)
  have t0: "0 \<le> (x - a) / wd" using xa w0 by simp
  have t1: "(x - a) / wd \<le> 1" using xa w0 by simp
  have e: "hist_cdf h x = hcdf h i + D * ((x - a) / wd)"
    by (simp add: hist_cdf_def Let_def i_def a_def wd_def D_def)
  have "0 \<le> D * ((x - a) / wd)" using D0 t0 by (rule mult_nonneg_nonneg)
  moreover have "D * ((x - a) / wd) \<le> D * 1" using D0 t1 by (rule mult_left_mono[rotated])
  ultimately show ?thesis using e by (simp add: D_def)
qed

lemma hist_cdf_mono:
  assumes "sorted_wrt (<) (edges h)" and "edges h \<noteq> []"
    and "hd (edges h) < x" and "x \<le> y" and "y < last (edges h)"
  shows "hist_cdf h x \<le> hist_cdf h y"
proof -
  define i where "i = length (filter (\<lambda>v. v \<le> x) (edges h)) - 1"
  define j where "j = length (filter (\<lambda>v. v \<le> y) (edges h)) - 1"
  have xl: "x < last (edges h)" and yh: "hd (edges h) < y" using assms(3-5) by simp_all
  have ij: "i \<le> j"
    unfolding i_def j_def
    using length_filter_mono[of "\<lambda>v. v \<le> x" "\<lambda>v. v \<le> y" "edges h"] assms(4)
    by (simp add: diff_le_mono)
  note bx = hist_cdf_between[OF assms(1,2,3) xl, folded i_def]
  note by' = hist_cdf_between[OF assms(1,2) yh assms(5), folded j_def]
  show ?thesis
  proof (cases "i = j")
    case False
    then have "i + 1 \<le> j" using ij by simp
    then have "hcdf h (i + 1) \<le> hcdf h j" by (rule hcdf_mono)
    then show ?thesis using bx by' by linarith
  next
    case True
    have c: "i + 1 < length (edges h) \<and> edges h ! i \<le> x \<and> x < edges h ! (i + 1)"
      unfolding i_def using assms(1,2,3) xl by (rule cell_of_interior)
    define wd where "wd = edges h ! (i + 1) - edges h ! i"
    define D where "D = hcdf h (i + 1) - hcdf h i"
    have D0: "0 \<le> D" using hcdf_mono[of i "i + 1" h] by (simp add: D_def)
    have w0: "0 < wd" using c by (simp add: wd_def)
    have ex: "hist_cdf h x = hcdf h i + (x - edges h ! i) * (D / wd)"
      by (simp add: hist_cdf_def Let_def i_def wd_def D_def)
    have ey: "hist_cdf h y = hcdf h i + (y - edges h ! i) * (D / wd)"
      using True by (simp add: hist_cdf_def Let_def j_def wd_def D_def)
    have "0 \<le> D / wd" using D0 w0 by simp
    then have "(x - edges h ! i) * (D / wd) \<le> (y - edges h ! i) * (D / wd)"
      using assms(4) by (intro mult_right_mono) simp_all
    then show ?thesis using ex ey by simp
  qed
qed

lemma rv_histogram_sf_antimono:
  assumes "sorted_wrt (<) (edges h)" and "edges h \<noteq> []" and "w1 \<le> w2"
  shows "rv_histogram_sf h w2 \<le> rv_histogram_sf h w1"
proof -
  have r: "\<And>x. hd (edges h) < x \<Longrightarrow> x < last (edges h) \<Longrightarrow>
              0 \<le> hist_cdf h x \<and> hist_cdf h x \<le> 1"
  proof -
    fix x assume "hd (edges h) < x" "x < last (edges h)"
    from hist_cdf_between[OF assms(1,2) this] hcdf_range[of h] show "0 \<le> hist_cdf h x \<and> hist_cdf h x \<le> 1"
      by (meson order_trans)
  qed
  show ?thesis
  proof (cases "w1 \<le> hd (edges h)")
    case True
    then have "rv_histogram_sf h w1 = 1" by (simp add: rv_histogram_sf_def)
    moreover have "rv_histogram_sf h w2 \<le> 1"
      using r[of w2] by (auto simp: rv_histogram_sf_def)
    ultimately show ?thesis by simp
  next
    case False
    then have l1: "hd (edges h) < w1" and l2: "hd (edges h) < w2" using assms(3) by simp_all
    show ?thesis
    proof (cases "last (edges h) \<le> w2")
      case True
      then have "rv_histogram_sf h w2 = 0" using l2 by (simp add: rv_histogram_sf_def)
      moreover have "0 \<le> rv_histogram_sf h w1"
        using r[of w1] l1 by (auto simp: rv_histogram_sf_def)
      ultimately show ?thesis by simp
    next
      case u: False
      then have "w2 < last (edges h)" by simp
      from hist_cdf_mono[OF assms(1,2) l1 assms(3) this]
      show ?thesis using l1 l2 u assms(3) by (simp add: rv_histogram_sf_def)
    qed
  qed
qed

lemma histogram_edges:
  assumes "histogram a bins = Inr h" and "a \<noteq> []" and "Min (set a) < Max (set a)"
  shows "sorted_wrt (<) (edges h) \<and> edges h \<noteq> [] \<and> hd (edges h) = Min (set a) \<and>
         last (edges h) = Max (set a)"
proof -
  define lo where "lo = Min (set a)"
  define hi where "hi = Max (set a)"
  define b where "b = nat bins"
  from assms(1) have b1: "1 \<le> bins" by (auto simp: histogram_def split: if_splits)
  then have bp: "0 < b" by (simp add: b_def)
  have lh: "lo < hi" using assms(3) by (simp add: lo_def hi_def)
  from assms(1) b1 assms(2) lh
  have e: "edges h = map (\<lambda>i. lo + real i * ((hi - lo) / real b)) [0..<b + 1]"
    by (auto simp: histogram_def Let_def lo_def hi_def b_def)
  have st: "0 < (hi - lo) / real b" using lh bp by simp
  have s: "sorted_wrt (<) (edges h)"
    unfolding e sorted_wrt_iff_nth_less
  proof (intro allI impI)
    fix i j assume i: "i < j" and j: "j < length (map (\<lambda>i. lo + real i * ((hi - lo) / real b)) [0..<b + 1])"
    from j have "j < b + 1" by simp
    with i have "i < b + 1" by simp
    have "real i < real j" using i by simp
    then have "real i * ((hi - lo) / real b) < real j * ((hi - lo) / real b)"
      using st by (rule mult_strict_right_mono)
    then show "map (\<lambda>i. lo + real i * ((hi - lo) / real b)) [0..<b + 1] ! i
                < map (\<lambda>i. lo + real i * ((hi - lo) / real b)) [0..<b + 1] ! j"
      using \<open>i < b + 1\<close> \<open>j < b + 1\<close>
      by (simp only: nth_map length_upt nth_upt diff_zero add_0 add_less_cancel_left)
  qed
  have ne: "edges h \<noteq> []" by (simp add: e)
  have h0: "hd (edges h) = lo"
    by (simp add: e hd_map upt_rec[of 0])
  have "last (edges h) = lo + real b * ((hi - lo) / real b)"
    by (simp add: e last_map del: upt_Suc)  
  then have "last (edges h) = hi" using bp by simp
  then show ?thesis using s ne h0 by (simp add: lo_def hi_def)
qed

lemma pdet_eval_loaded:
  "p_interpolate p = Some h \<Longrightarrow> pdet_eval e w p v = Inr (apply_sf h v, w, p)"
  by (simp add: pdet_eval_def pdet_interpolate_def)

lemma files_pickle_dump: "files (pickle_dump w f a) f = Some a"
  by (simp add: pickle_dump_def)

lemma demo_histogram: "histogram [0, 3 / 4, 1, 1] 2 = Inr demo_hist"
  by (simp add: histogram_def Let_def demo_hist_def bin_of_def upt_rec[of 0] upt_rec[of 1]
        upt_rec[of 2] numeral_2_eq_2)

lemma demo_single_sample:
  "montecarlo_samples demo_env demo_world 1
     = Inr (Scalar (1 / 4), demo_world\<lparr>rng := 4, mc_calls := 1\<rparr>)"
  by (simp add: montecarlo_samples_def uniform_def demo_env_def demo_world_def demote_def
        littleomega_def Fplus_def Fcross_def real_sqrt_divide)

lemma single_histogram:
  "histogram [1 / 4] 1 = Inr \<lparr>counts = [1], edges = [- (1 / 4), 3 / 4]\<rparr>"
  by (simp add: histogram_def Let_def bin_of_def upt_rec[of 0] upt_rec[of 1])

text \<open>
  C5, as the claim states it, fails for a distribution built from one sample
  (\<open>mcn = 1\<close>): the minimum and the maximum observed sample are that sample, so the claim
  asks for 1 and for 0 at the same point. The histogram is widened by one half on each
  side of the sample, and the survival function is one half there.
\<close>

theorem single_sample_survival_is_half:
  "montecarlo_samples demo_env demo_world 1
     = Inr (Scalar (1 / 4), demo_world\<lparr>rng := 4, mc_calls := 1\<rparr>) \<and>
   pdet_eval demo_env demo_world (pdet_init ''detprob_data'' (Some ''one.pkl'') 1 1)
       (Scalar (1 / 4))
     = Inr (Scalar (1 / 2),
         pickle_dump (demo_world\<lparr>rng := 4, mc_calls := 1\<rparr>) ''detprob_data/one.pkl''
           (HistDist \<lparr>counts = [1], edges = [- (1 / 4), 3 / 4]\<rparr>),
         (pdet_init ''detprob_data'' (Some ''one.pkl'') 1 1)
           \<lparr>p_interpolate := Some \<lparr>counts = [1], edges = [- (1 / 4), 3 / 4]\<rparr>\<rparr>)"
proof -
  let ?p = "pdet_init ''detprob_data'' (Some ''one.pkl'') 1 1"
  let ?h = "\<lparr>counts = [1], edges = [- (1 / 4), 3 / 4]\<rparr>"
  have pe: "path_exists demo_world (p_directory ?p)"
    by (simp add: path_exists_def demo_world_def pdet_init_def)
  have nf: "\<not> isfile demo_world (p_binfile ?p)"
    by (simp add: isfile_def demo_world_def pdet_init_def pdet_binfile_path_def)
  have pb: "p_binfile ?p = ''detprob_data/one.pkl''"
    by (simp add: pdet_init_def pdet_binfile_path_def)
  have pi: "p_interpolate ?p = None"
    by (simp add: pdet_init_def)
  have b: "pdet_build demo_env demo_world ?p
             = Inr (pickle_dump (demo_world\<lparr>rng := 4, mc_calls := 1\<rparr>) ''detprob_data/one.pkl''
                      (HistDist ?h))"
    using pe by (simp add: pdet_build_def Let_def demo_single_sample single_histogram
        pdet_init_def pdet_binfile_path_def)
  have i: "pdet_interpolate demo_env demo_world ?p
             = Inr (?h, pickle_dump (demo_world\<lparr>rng := 4, mc_calls := 1\<rparr>)
                      ''detprob_data/one.pkl'' (HistDist ?h), ?p\<lparr>p_interpolate := Some ?h\<rparr>)"
    using nf pi by (simp add: pdet_interpolate_def b pb files_pickle_dump)
  have v: "rv_histogram_sf ?h (1 / 4) = 1 / 2"
    by (simp add: rv_histogram_sf_def hist_cdf_def hcdf_def)
  have v': "rv_histogram_sf \<lparr>counts = [Suc 0], edges = [- (1 / 4), 3 / 4]\<rparr> (1 / 4) = 1 / 2"
    using v by simp
  show ?thesis
    using demo_single_sample by (simp add: pdet_eval_def i v')
qed

text \<open>
  C5, amended. For every distribution built from samples that are not all equal, the
  survival function is non-increasing, is 1 at and below the minimum observed sample, is
  0 at and above the maximum observed sample, and \<open>pdet.eval\<close> on the loaded
  distribution returns its value at every query, in or out of the range, and raises
  nothing.
\<close>

theorem survival_function_of_spread_samples:
  assumes "histogram a bins = Inr h" and "a \<noteq> []" and "Min (set a) < Max (set a)"
  shows "(\<forall>w1 w2. w1 \<le> w2 \<longrightarrow> rv_histogram_sf h w2 \<le> rv_histogram_sf h w1) \<and>
         (\<forall>w. w \<le> Min (set a) \<longrightarrow> rv_histogram_sf h w = 1) \<and>
         (\<forall>w. Max (set a) \<le> w \<longrightarrow> rv_histogram_sf h w = 0) \<and>
         (p_interpolate p = Some h \<longrightarrow>
            pdet_eval e w p (Scalar x) = Inr (Scalar (rv_histogram_sf h x), w, p))"
proof -
  note ed = histogram_edges[OF assms]
  have m: "\<forall>w1 w2. w1 \<le> w2 \<longrightarrow> rv_histogram_sf h w2 \<le> rv_histogram_sf h w1"
    using rv_histogram_sf_antimono ed by blast
  have l: "\<forall>w. w \<le> Min (set a) \<longrightarrow> rv_histogram_sf h w = 1"
    using ed by (simp add: rv_histogram_sf_def)
  have u: "\<forall>w. Max (set a) \<le> w \<longrightarrow> rv_histogram_sf h w = 0"
    using ed assms(3) by (simp add: rv_histogram_sf_def)
  have c: "p_interpolate p = Some h \<longrightarrow>
            pdet_eval e w p (Scalar x) = Inr (Scalar (rv_histogram_sf h x), w, p)"
    by (simp add: pdet_eval_loaded)
  from m l u c show ?thesis by (intro conjI)
qed

theorem survival_function_of_spread_samples_witness:
  "histogram [0, 3 / 4, 1, 1] 2 = Inr demo_hist \<and>
   Min (set [0, 3 / 4, 1, 1 :: real]) < Max (set [0, 3 / 4, 1, 1 :: real]) \<and>
   rv_histogram_sf demo_hist (3 / 4) \<le> rv_histogram_sf demo_hist (1 / 4) \<and>
   rv_histogram_sf demo_hist (- 3) = 1 \<and>
   rv_histogram_sf demo_hist 7 = 0 \<and>
   pdet_eval demo_env demo_world
       ((pdet_init ''detprob_data'' (Some ''pw.pkl'') 10 2)\<lparr>p_interpolate := Some demo_hist\<rparr>)
       (Scalar (3 / 4))
     = Inr (Scalar (rv_histogram_sf demo_hist (3 / 4)), demo_world,
         (pdet_init ''detprob_data'' (Some ''pw.pkl'') 10 2)\<lparr>p_interpolate := Some demo_hist\<rparr>)"
proof -
  have ne: "[0, 3 / 4, 1, 1 :: real] \<noteq> []" by simp
  have sp: "Min (set [0, 3 / 4, 1, 1 :: real]) < Max (set [0, 3 / 4, 1, 1 :: real])" by simp
  note t = survival_function_of_spread_samples [OF demo_histogram ne sp,
      where p = "(pdet_init ''detprob_data'' (Some ''pw.pkl'') 10 2)\<lparr>p_interpolate := Some demo_hist\<rparr>"
        and e = demo_env and w = demo_world and x = "3 / 4"]
  have a: "rv_histogram_sf demo_hist (3 / 4) \<le> rv_histogram_sf demo_hist (1 / 4)"
    using t [THEN conjunct1] by simp
  have b: "rv_histogram_sf demo_hist (- 3) = 1"
    using t [THEN conjunct2, THEN conjunct1] by simp
  have c: "rv_histogram_sf demo_hist 7 = 0"
    using t [THEN conjunct2, THEN conjunct2, THEN conjunct1] by simp
  have d: "pdet_eval demo_env demo_world
       ((pdet_init ''detprob_data'' (Some ''pw.pkl'') 10 2)\<lparr>p_interpolate := Some demo_hist\<rparr>)
       (Scalar (3 / 4))
     = Inr (Scalar (rv_histogram_sf demo_hist (3 / 4)), demo_world,
         (pdet_init ''detprob_data'' (Some ''pw.pkl'') 10 2)\<lparr>p_interpolate := Some demo_hist\<rparr>)"
    using t [THEN conjunct2, THEN conjunct2, THEN conjunct2] by simp
  show ?thesis
    using demo_histogram sp a b c d by (simp only: simp_thms)
qed

end
